theory Spec2Isabelle
  imports Complex_Main "HOL-Library.AList"
begin

section \<open>JavaScript values held by the store\<close>

text \<open>
  The store of \<^verbatim>\<open>src/js/app.js\<close> is the global variable \<^verbatim>\<open>state\<close>. It starts as an
  object literal and is replaced wholesale by whatever \<^verbatim>\<open>JSON.parse\<close> returns (in
  \<^verbatim>\<open>loadState\<close> and in the restore handler), so it can hold any JSON value, not only a
  well-shaped document. The model therefore works on JSON values directly.

  \<^item> A number is a rational: every finite double is one, and the program only asks of a
    number whether it is zero and whether it equals an array index. The two zeros of a
    double answer both questions alike; an infinity, which \<^verbatim>\<open>JSON.parse\<close> returns for a
    literal out of range, answers them as any large rational does.
  \<^item> A string is a list of characters, one for each code unit. The program compares
    strings and tests them for emptiness; it looks inside one only when a record is
    itself a string and is spread into an object.
  \<^item> An object is the list of its own properties in enumeration order.
  \<^item> An array carries its elements and, separately, its named own properties: the
    assignment \<^verbatim>\<open>client.id = ...\<close> on a client that happens to be an array creates
    one. \<^verbatim>\<open>JSON.parse\<close> never produces such a property.
  \<^item> \<^verbatim>\<open>undefined\<close> is not a JSON value; a property read returns an option and
    \<open>None\<close> stands for \<^verbatim>\<open>undefined\<close>.
\<close>

datatype json =
    JNull
  | JBool bool
  | JNum rat
  | JStr string
  | JArr "json list" "(string \<times> json) list"
  | JObj "(string \<times> json) list"

text \<open>A statement either completes or throws; the only exception the modelled code can
  raise is a \<^verbatim>\<open>TypeError\<close> (reading a property of \<^verbatim>\<open>null\<close> or \<^verbatim>\<open>undefined\<close>,
  calling something that is not a function).\<close>

datatype completion = Normal | TypeError

text \<open>Decimal rendering of a non-negative integer, as \<^verbatim>\<open>String(n)\<close> gives it for an
  array index and for \<^verbatim>\<open>Date.now()\<close>.\<close>

definition digit :: "nat \<Rightarrow> char" where
  "digit d = ''0123456789'' ! d"

function show_nat :: "nat \<Rightarrow> string" where
  "show_nat n = (if n < 10 then [digit n] else show_nat (n div 10) @ [digit (n mod 10)])"
  by pat_completeness auto
termination
  by (relation "measure (\<lambda>n. n)") auto

declare show_nat.simps [simp del]

definition indexed :: "json list \<Rightarrow> (string \<times> json) list" where
  "indexed xs = zip (map show_nat [0..<length xs]) xs"

text \<open>The own enumerable properties of a value, in enumeration order: what the spread
  \<^verbatim>\<open>{ ...record }\<close> and the rest pattern \<^verbatim>\<open>{ clientIndex, ...rest }\<close> copy. An array
  and a string contribute their indices, a number or a boolean nothing.\<close>

fun own_props :: "json \<Rightarrow> (string \<times> json) list" where
  "own_props (JObj ps) = ps"
| "own_props (JArr xs ps) = indexed xs @ ps"
| "own_props (JStr s) = indexed (map (\<lambda>c. JStr [c]) s)"
| "own_props _ = []"

text \<open>Reading a named property \<^verbatim>\<open>v.key\<close> of a value that is not \<^verbatim>\<open>null\<close>. The program
  reads only the names \<^verbatim>\<open>id\<close>, \<^verbatim>\<open>clientId\<close>, \<^verbatim>\<open>clientIndex\<close>, \<^verbatim>\<open>clients\<close>,
  \<^verbatim>\<open>progress\<close>, \<^verbatim>\<open>events\<close>, \<^verbatim>\<open>settings\<close> and \<^verbatim>\<open>theme\<close> this way; none of them is an
  index, \<^verbatim>\<open>length\<close> or a property of a built-in prototype, so a primitive has none of
  them and an array has one only as a named own property. Reading a property of
  \<^verbatim>\<open>null\<close> throws; the callers test for \<open>JNull\<close> first.\<close>

fun get_prop :: "json \<Rightarrow> string \<Rightarrow> json option" where
  "get_prop (JObj ps) key = map_of ps key"
| "get_prop (JArr xs ps) key = map_of ps key"
| "get_prop _ key = None"

text \<open>The assignment \<^verbatim>\<open>v.key = x\<close> for such a name. An existing property keeps its place,
  a new one goes last. The file has no \<^verbatim>\<open>"use strict"\<close> directive and no module syntax, so
  it runs as a classic script in sloppy mode, where assigning to a property of a
  primitive is silently ignored.\<close>

fun set_prop :: "json \<Rightarrow> string \<Rightarrow> json \<Rightarrow> json" where
  "set_prop (JObj ps) key x = JObj (AList.update key x ps)"
| "set_prop (JArr xs ps) key x = JArr xs (AList.update key x ps)"
| "set_prop v key x = v"

text \<open>The truth value of a value in a condition (\<^verbatim>\<open>!x\<close>, \<^verbatim>\<open>x ? a : b\<close>, \<^verbatim>\<open>Boolean(x)\<close>).\<close>

fun truthy :: "json \<Rightarrow> bool" where
  "truthy JNull = False"
| "truthy (JBool b) = b"
| "truthy (JNum q) = (q \<noteq> 0)"
| "truthy (JStr s) = (s \<noteq> [])"
| "truthy (JArr xs ps) = True"
| "truthy (JObj ps) = True"

fun truthy_opt :: "json option \<Rightarrow> bool" where
  "truthy_opt None = False"
| "truthy_opt (Some v) = truthy v"

text \<open>\<^verbatim>\<open>typeof v === 'object'\<close> for a value that is not \<^verbatim>\<open>null\<close>: a property can be
  assigned to it.\<close>

definition is_object :: "json \<Rightarrow> bool" where
  "is_object v = (case v of JObj ps \<Rightarrow> True | JArr xs ps \<Rightarrow> True | _ \<Rightarrow> False)"

text \<open>A method call \<^verbatim>\<open>v.map(...)\<close>, \<^verbatim>\<open>v.filter(...)\<close> or \<^verbatim>\<open>v.push(...)\<close> succeeds only on
  an array whose method is the built-in one; on anything else the callee is
  \<^verbatim>\<open>undefined\<close> or a JSON value, and the call throws.\<close>

fun array_receiver :: "string \<Rightarrow> json option \<Rightarrow> (json list \<times> (string \<times> json) list) option" where
  "array_receiver m (Some (JArr xs ps)) = (if map_of ps m = None then Some (xs, ps) else None)"
| "array_receiver m _ = None"

section \<open>Identifier generator\<close>

text \<open>
  \<^verbatim>\<open>
  function generateId(prefix) {
    if (window.crypto && crypto.randomUUID) {
      return crypto.randomUUID();
    }
    return `${prefix}-${Date.now()}-${Math.floor(Math.random() * 10000)}`;
  }
  \<close>
  What the platform supplies at one call is either the string \<^verbatim>\<open>crypto.randomUUID()\<close>
  returns, or the clock reading and the random integer of the fallback. A session is
  given the sequence of these draws and counts the calls made so far.
\<close>

datatype entropy = RandomUUID string | ClockRandom nat nat

type_synonym idsource = "nat \<Rightarrow> entropy"

definition generateId :: "string \<Rightarrow> entropy \<Rightarrow> string" where
  "generateId prefix e =
     (case e of
        RandomUUID u \<Rightarrow> u
      | ClockRandom now r \<Rightarrow> prefix @ ''-'' @ show_nat now @ ''-'' @ show_nat r)"

section \<open>Migration engine\<close>

text \<open>
  \<^verbatim>\<open>
  state.clients = state.clients.map((client, index) => {
    if (!client.id) {
      client.id = generateId('client');
    }
    indexToId.set(index, client.id);
    return client;
  });
  \<close>
  The callback mutates the client in place and returns it; \<open>client_callback\<close> returns
  the client after the assignment and the number of draws used so far.
\<close>

definition client_callback :: "idsource \<Rightarrow> nat \<Rightarrow> json \<Rightarrow> json \<times> nat" where
  "client_callback src k client =
     (if \<not> truthy_opt (get_prop client ''id'')
      then (set_prop client ''id'' (JStr (generateId ''client'' (src k))), Suc k)
      else (client, k))"

text \<open>The loop of \<^verbatim>\<open>map\<close> over the clients. It returns how it completed, the elements as
  they are afterwards (a \<^verbatim>\<open>null\<close> client throws at \<^verbatim>\<open>client.id\<close>; the clients before it
  have been assigned their ids already, the ones from it on are untouched), the values
  stored in \<^verbatim>\<open>indexToId\<close> by position, and the draw counter.\<close>

fun assign_ids :: "idsource \<Rightarrow> nat \<Rightarrow> json list \<Rightarrow> completion \<times> json list \<times> json option list \<times> nat" where
  "assign_ids src k [] = (Normal, [], [], k)"
| "assign_ids src k (client # rest) =
     (if client = JNull then (TypeError, client # rest, [], k)
      else (case client_callback src k client of
              (client', k') \<Rightarrow>
                (case assign_ids src k' rest of
                   (c, rest', ids, k'') \<Rightarrow>
                     (c, client' # rest', get_prop client' ''id'' # ids, k''))))"

text \<open>\<^verbatim>\<open>indexToId.get(record.clientIndex)\<close>: the keys of the map are the positions
  \<open>0 .. n - 1\<close>; a number finds an entry exactly when it equals one of them. The entry
  itself may be \<^verbatim>\<open>undefined\<close>.\<close>

definition map_get :: "json option list \<Rightarrow> rat \<Rightarrow> json option" where
  "map_get indexToId q =
     (if 0 \<le> q \<and> of_int \<lfloor>q\<rfloor> = q \<and> nat \<lfloor>q\<rfloor> < length indexToId
      then indexToId ! nat \<lfloor>q\<rfloor> else None)"

text \<open>
  \<^verbatim>\<open>
  .map(record => {
    if (!record.clientId && typeof record.clientIndex === 'number') {
      const clientId = indexToId.get(record.clientIndex);
      return clientId ? { ...record, clientId } : null;
    }
    return record;
  })
  .filter(Boolean)
  .map(({ clientIndex, ...rest }) => rest);
  \<close>
\<close>

definition legacy_callback :: "json option list \<Rightarrow> json \<Rightarrow> json" where
  "legacy_callback indexToId record =
     (if \<not> truthy_opt (get_prop record ''clientId'')
      then (case get_prop record ''clientIndex'' of
              Some (JNum q) \<Rightarrow>
                (case map_get indexToId q of
                   Some clientId \<Rightarrow>
                     (if truthy clientId
                      then JObj (AList.update ''clientId'' clientId (own_props record))
                      else JNull)
                 | None \<Rightarrow> JNull)
            | _ \<Rightarrow> record)
      else record)"

definition strip_clientIndex :: "json \<Rightarrow> json" where
  "strip_clientIndex record = JObj (AList.delete ''clientIndex'' (own_props record))"

definition migrate_records :: "json option list \<Rightarrow> json list \<Rightarrow> json list" where
  "migrate_records indexToId records =
     map strip_clientIndex (filter truthy (map (legacy_callback indexToId) records))"

text \<open>The three statements of \<^verbatim>\<open>migrateState\<close>. Each reads a collection of \<^verbatim>\<open>state\<close>,
  and assigns the new array to it unless something threw before the assignment. The
  statements for \<^verbatim>\<open>state.progress\<close> and \<^verbatim>\<open>state.events\<close> are the same code with the
  name changed.\<close>

definition migrate_clients :: "idsource \<Rightarrow> nat \<Rightarrow> json \<Rightarrow> completion \<times> json \<times> json option list \<times> nat" where
  "migrate_clients src k st =
     (case array_receiver ''map'' (get_prop st ''clients'') of
        None \<Rightarrow> (TypeError, st, [], k)
      | Some (clients, ps) \<Rightarrow>
          (case assign_ids src k clients of
             (Normal, clients', ids, k') \<Rightarrow>
               (Normal, set_prop st ''clients'' (JArr clients' []), ids, k')
           | (TypeError, clients', ids, k') \<Rightarrow>
               (TypeError, set_prop st ''clients'' (JArr clients' ps), ids, k')))"

definition migrate_collection :: "string \<Rightarrow> json option list \<Rightarrow> json \<Rightarrow> completion \<times> json" where
  "migrate_collection name indexToId st =
     (case array_receiver ''map'' (get_prop st name) of
        None \<Rightarrow> (TypeError, st)
      | Some (records, ps) \<Rightarrow>
          (if JNull \<in> set records then (TypeError, st)
           else (Normal, set_prop st name (JArr (migrate_records indexToId records) []))))"

definition migrateState :: "idsource \<Rightarrow> nat \<Rightarrow> json \<Rightarrow> completion \<times> json \<times> nat" where
  "migrateState src k st =
     (case migrate_clients src k st of
        (TypeError, st1, ids, k') \<Rightarrow> (TypeError, st1, k')
      | (Normal, st1, ids, k') \<Rightarrow>
          (case migrate_collection ''progress'' ids st1 of
             (TypeError, st2) \<Rightarrow> (TypeError, st2, k')
           | (Normal, st2) \<Rightarrow>
               (case migrate_collection ''events'' ids st2 of
                  (c, st3) \<Rightarrow> (c, st3, k'))))"

text \<open>When the migration completes: each of the three collections must be an array with
  the built-in \<^verbatim>\<open>map\<close> and without a \<^verbatim>\<open>null\<close> element, since each callback reads a
  property of the element it is given.\<close>

definition iterable :: "string \<Rightarrow> json \<Rightarrow> string \<Rightarrow> bool" where
  "iterable method st name =
     (case array_receiver method (get_prop st name) of
        Some (xs, ps) \<Rightarrow> JNull \<notin> set xs
      | None \<Rightarrow> False)"

definition migratable :: "json \<Rightarrow> bool" where
  "migratable st =
     (iterable ''map'' st ''clients'' \<and> iterable ''map'' st ''progress'' \<and>
      iterable ''map'' st ''events'')"

definition indexToId_of :: "idsource \<Rightarrow> nat \<Rightarrow> json \<Rightarrow> json option list" where
  "indexToId_of src k st = (case migrate_clients src k st of (c, st1, ids, k') \<Rightarrow> ids)"

section \<open>Mutations of the store\<close>

text \<open>
  The delete button of a client (in \<^verbatim>\<open>renderClients\<close>):
  \<^verbatim>\<open>
  const clientId = client.id;
  state.clients = state.clients.filter(existing => existing.id !== clientId);
  state.progress = state.progress.filter(p => p.clientId !== clientId);
  state.events = state.events.filter(e => e.clientId !== clientId);
  \<close>
  \<^verbatim>\<open>!==\<close> compares primitives by value and objects by reference. The values of the model
  carry no references, so the identifier handed to the deletion is a primitive (or
  \<^verbatim>\<open>undefined\<close>, for a client without \<^verbatim>\<open>id\<close>): against a primitive the comparison is
  decided by value, whatever stands on the other side. The calls that follow the three
  assignments (\<^verbatim>\<open>saveState\<close> and the rendering of the lists) read the store and are
  not part of the model.
\<close>

datatype primitive = Undefined | PNull | PBool bool | PNum rat | PStr string

fun primitive_of :: "json option \<Rightarrow> primitive option" where
  "primitive_of None = Some Undefined"
| "primitive_of (Some JNull) = Some PNull"
| "primitive_of (Some (JBool b)) = Some (PBool b)"
| "primitive_of (Some (JNum q)) = Some (PNum q)"
| "primitive_of (Some (JStr s)) = Some (PStr s)"
| "primitive_of (Some (JArr xs ps)) = None"
| "primitive_of (Some (JObj ps)) = None"

definition strict_equals :: "json option \<Rightarrow> primitive \<Rightarrow> bool" where
  "strict_equals v p = (primitive_of v = Some p)"

definition filter_collection :: "string \<Rightarrow> string \<Rightarrow> primitive \<Rightarrow> json \<Rightarrow> completion \<times> json" where
  "filter_collection name key clientId st =
     (case array_receiver ''filter'' (get_prop st name) of
        None \<Rightarrow> (TypeError, st)
      | Some (xs, ps) \<Rightarrow>
          (if JNull \<in> set xs then (TypeError, st)
           else (Normal,
                 set_prop st name
                   (JArr (filter (\<lambda>x. \<not> strict_equals (get_prop x key) clientId) xs) []))))"

definition deleteClient :: "primitive \<Rightarrow> json \<Rightarrow> completion \<times> json" where
  "deleteClient clientId st =
     (case filter_collection ''clients'' ''id'' clientId st of
        (TypeError, st1) \<Rightarrow> (TypeError, st1)
      | (Normal, st1) \<Rightarrow>
          (case filter_collection ''progress'' ''clientId'' clientId st1 of
             (TypeError, st2) \<Rightarrow> (TypeError, st2)
           | (Normal, st2) \<Rightarrow> filter_collection ''events'' ''clientId'' clientId st2))"

text \<open>
  The progress form and the calendar form (in \<^verbatim>\<open>setupForms\<close>):
  \<^verbatim>\<open>
  const clientId = document.getElementById('progress-client-select').value;
  if (!clientId) return;
  const date = document.getElementById('progress-date').value;
  const weight = document.getElementById('progress-weight').value;
  if (!date) return;
  state.progress.push({ clientId, date, weight });
  \<close>
  The values of form controls are strings. \<^verbatim>\<open>push\<close> appends to the array in place. For
  the calendar form \<open>note\<close> is the field's value after \<^verbatim>\<open>trim()\<close>.
\<close>

definition push_record :: "string \<Rightarrow> json \<Rightarrow> json \<Rightarrow> completion \<times> json" where
  "push_record name record st =
     (case array_receiver ''push'' (get_prop st name) of
        None \<Rightarrow> (TypeError, st)
      | Some (xs, ps) \<Rightarrow> (Normal, set_prop st name (JArr (xs @ [record]) ps)))"

definition addProgressRecord :: "string \<Rightarrow> string \<Rightarrow> string \<Rightarrow> json \<Rightarrow> completion \<times> json" where
  "addProgressRecord clientId date weight st =
     (if clientId = [] then (Normal, st)
      else if date = [] then (Normal, st)
      else push_record ''progress''
             (JObj [(''clientId'', JStr clientId), (''date'', JStr date), (''weight'', JStr weight)]) st)"

definition addEvent :: "string \<Rightarrow> string \<Rightarrow> string \<Rightarrow> json \<Rightarrow> completion \<times> json" where
  "addEvent clientId date note st =
     (if clientId = [] then (Normal, st)
      else if date = [] then (Normal, st)
      else push_record ''events''
             (JObj [(''clientId'', JStr clientId), (''date'', JStr date), (''note'', JStr note)]) st)"

section \<open>Load, backup and restore\<close>

text \<open>\<^verbatim>\<open>JSON.parse\<close> and \<^verbatim>\<open>JSON.stringify\<close> belong to the platform and are parameters:
  \<open>JSON_parse text\<close> is \<open>None\<close> when the parser throws its \<^verbatim>\<open>SyntaxError\<close>.\<close>

text \<open>\<^verbatim>\<open>applyTheme(state.settings.theme)\<close> reads a property of \<^verbatim>\<open>state.settings\<close>: it throws
  when the settings are \<^verbatim>\<open>undefined\<close> or \<^verbatim>\<open>null\<close>. \<^verbatim>\<open>applyLanguage\<close> then assigns
  \<^verbatim>\<open>state.settings.language\<close> the value it already has.\<close>

definition read_settings :: "json \<Rightarrow> completion" where
  "read_settings st =
     (case get_prop st ''settings'' of
        None \<Rightarrow> TypeError
      | Some JNull \<Rightarrow> TypeError
      | Some v \<Rightarrow> Normal)"

text \<open>
  \<^verbatim>\<open>
  function loadState() {
    try {
      const stored = localStorage.getItem('ftm-state');
      if (stored) {
        state = JSON.parse(stored);
      }
    } catch (err) {
      console.error('Failed to load state:', err);
    }
    migrateState();
    applyTheme(state.settings.theme);
    applyLanguage(state.settings.language);
  }
  \<close>
  \<open>stored\<close> is what the storage slot holds, if anything. The migration runs outside the
  \<^verbatim>\<open>try\<close>, so what it throws leaves \<^verbatim>\<open>loadState\<close>. The writes to the page that follow
  the read of the settings are not part of the model.
\<close>

definition loadState :: "(string \<Rightarrow> json option) \<Rightarrow> idsource \<Rightarrow> nat \<Rightarrow> string option \<Rightarrow> json \<Rightarrow> completion \<times> json \<times> nat" where
  "loadState JSON_parse src k stored st =
     (case migrateState src k
             (case stored of
                None \<Rightarrow> st
              | Some text \<Rightarrow>
                  (if text = [] then st
                   else (case JSON_parse text of None \<Rightarrow> st | Some data \<Rightarrow> data))) of
        (TypeError, st', k') \<Rightarrow> (TypeError, st', k')
      | (Normal, st', k') \<Rightarrow> (read_settings st', st', k'))"


text \<open>
  The restore button, once the file has been read:
  \<^verbatim>\<open>
  try {
    const data = JSON.parse(ev.target.result);
    state = data;
    migrateState();
    applyTheme(state.settings.theme);
    applyLanguage(state.settings.language);
    saveState();
    renderAll();
  } catch (err) {
    alert('Invalid backup file');
  }
  \<close>
  \<open>ui\<close> stands for the writes to the page in \<^verbatim>\<open>applyTheme\<close>, \<^verbatim>\<open>applyLanguage\<close> and
  \<^verbatim>\<open>renderAll\<close>, which read the store, do not change it and may throw; \<^verbatim>\<open>saveState\<close>
  catches its own exceptions. The result says whether the alert was raised, and gives
  the store and the draw counter afterwards.
\<close>

datatype restore_result = Restored | InvalidBackupFile

definition replaceState :: "(string \<Rightarrow> json option) \<Rightarrow> idsource \<Rightarrow> (json \<Rightarrow> completion) \<Rightarrow> nat \<Rightarrow> string \<Rightarrow> json \<Rightarrow> restore_result \<times> json \<times> nat" where
  "replaceState JSON_parse src ui k text st =
     (case JSON_parse text of
        None \<Rightarrow> (InvalidBackupFile, st, k)
      | Some data \<Rightarrow>
          (case migrateState src k data of
             (TypeError, st', k') \<Rightarrow> (InvalidBackupFile, st', k')
           | (Normal, st', k') \<Rightarrow>
               (case read_settings st' of
                  TypeError \<Rightarrow> (InvalidBackupFile, st', k')
                | Normal \<Rightarrow>
                    (case ui st' of
                       TypeError \<Rightarrow> (InvalidBackupFile, st', k')
                     | Normal \<Rightarrow> (Restored, st', k')))))"

text \<open>The store the script starts with.\<close>

definition initial_state :: json where
  "initial_state =
     JObj [(''clients'', JArr [] []), (''programs'', JArr [] []), (''exercises'', JArr [] []),
           (''progress'', JArr [] []), (''events'', JArr [] []),
           (''settings'', JObj [(''theme'', JStr ''light''), (''language'', JStr ''en'')])]"

section \<open>The invariants of the store\<close>

text \<open>A collection of the persisted document: an array as \<^verbatim>\<open>JSON.parse\<close> builds it.\<close>

definition collection :: "json \<Rightarrow> string \<Rightarrow> json list option" where
  "collection st name =
     (case get_prop st name of
        Some (JArr xs ps) \<Rightarrow> (if ps = [] then Some xs else None)
      | _ \<Rightarrow> None)"

text \<open>Invariant 1 for one client: an object with a non-empty string \<^verbatim>\<open>id\<close>.\<close>

definition has_id :: "json \<Rightarrow> bool" where
  "has_id client =
     (case client of
        JObj ps \<Rightarrow> (case map_of ps ''id'' of Some (JStr s) \<Rightarrow> s \<noteq> [] | _ \<Rightarrow> False)
      | _ \<Rightarrow> False)"

text \<open>Invariant 2 for one record: an object with a \<^verbatim>\<open>clientId\<close> that is the \<^verbatim>\<open>id\<close> of one
  of the clients, and without a \<^verbatim>\<open>clientIndex\<close> field.\<close>

definition no_clientIndex :: "json \<Rightarrow> bool" where
  "no_clientIndex record =
     (case record of JObj ps \<Rightarrow> ''clientIndex'' \<notin> fst ` set ps | _ \<Rightarrow> False)"

definition references :: "json list \<Rightarrow> json \<Rightarrow> bool" where
  "references clients record =
     (no_clientIndex record \<and> get_prop record ''clientId'' \<noteq> None \<and>
      get_prop record ''clientId'' \<in> (\<lambda>client. get_prop client ''id'') ` set clients)"

definition referential_integrity :: "json \<Rightarrow> bool" where
  "referential_integrity st =
     (case (collection st ''clients'', collection st ''progress'', collection st ''events'') of
        (Some clients, Some progress, Some events) \<Rightarrow>
          list_all (references clients) progress \<and> list_all (references clients) events
      | _ \<Rightarrow> False)"

text \<open>Invariant 4: the settings are an object with a non-empty \<^verbatim>\<open>theme\<close> and \<^verbatim>\<open>language\<close>.\<close>

definition populated :: "json option \<Rightarrow> bool" where
  "populated v = (case v of Some (JStr s) \<Rightarrow> s \<noteq> [] | _ \<Rightarrow> False)"

definition settings_populated :: "json \<Rightarrow> bool" where
  "settings_populated st =
     (case get_prop st ''settings'' of
        Some (JObj ps) \<Rightarrow> populated (map_of ps ''theme'') \<and> populated (map_of ps ''language'')
      | _ \<Rightarrow> False)"

text \<open>The invariants of section 3 of the specification on a document of the shape of its
  section 6: five collections, clients with distinct non-empty ids, records that
  reference them, settings populated.\<close>

definition store_invariants :: "json \<Rightarrow> bool" where
  "store_invariants st =
     (referential_integrity st \<and> settings_populated st \<and>
      collection st ''programs'' \<noteq> None \<and> collection st ''exercises'' \<noteq> None \<and>
      (case collection st ''clients'' of
         Some clients \<Rightarrow>
           list_all has_id clients \<and> distinct (map (\<lambda>client. get_prop client ''id'') clients)
       | None \<Rightarrow> False))"

section \<open>Sample data\<close>

text \<open>A platform with \<^verbatim>\<open>crypto.randomUUID\<close>, for concrete runs.\<close>

definition sample_src :: idsource where
  "sample_src n = RandomUUID (''uuid-'' @ show_nat n)"

text \<open>A snapshot written by the older version of the application: clients without
  \<^verbatim>\<open>id\<close>, records that name their client by position.\<close>

definition legacy_state :: json where
  "legacy_state =
     JObj [(''clients'', JArr [JObj [(''name'', JStr ''A'')], JObj [(''name'', JStr ''B'')]] []),
           (''programs'',
              JArr [JObj [(''name'', JStr ''Strength''),
                          (''exercises'', JArr [JStr ''squat'', JStr ''row'', JStr ''press''] [])]] []),
           (''exercises'', JArr [] []),
           (''progress'',
              JArr [JObj [(''clientIndex'', JNum 1), (''date'', JStr ''2024-01-01''),
                          (''weight'', JStr ''70'')],
                    JObj [(''clientIndex'', JNum 5), (''date'', JStr ''2024-01-01'')]] []),
           (''events'',
              JArr [JObj [(''clientId'', JStr ''uuid-1''), (''clientIndex'', JNum 0),
                          (''date'', JStr ''2024-02-02''), (''note'', JStr ''first'')]] []),
           (''settings'', JObj [(''theme'', JStr ''dark''), (''language'', JStr ''fa'')])]"

definition migrated_state :: json where
  "migrated_state =
     JObj [(''clients'',
              JArr [JObj [(''name'', JStr ''A''), (''id'', JStr ''uuid-0'')],
                    JObj [(''name'', JStr ''B''), (''id'', JStr ''uuid-1'')]] []),
           (''programs'',
              JArr [JObj [(''name'', JStr ''Strength''),
                          (''exercises'', JArr [JStr ''squat'', JStr ''row'', JStr ''press''] [])]] []),
           (''exercises'', JArr [] []),
           (''progress'',
              JArr [JObj [(''date'', JStr ''2024-01-01''), (''weight'', JStr ''70''),
                          (''clientId'', JStr ''uuid-1'')]] []),
           (''events'',
              JArr [JObj [(''clientId'', JStr ''uuid-1''), (''date'', JStr ''2024-02-02''),
                          (''note'', JStr ''first'')]] []),
           (''settings'', JObj [(''theme'', JStr ''dark''), (''language'', JStr ''fa'')])]"

text \<open>The records of the snapshot, one by one.\<close>

definition client_A :: json where
  "client_A = JObj [(''name'', JStr ''A'')]"

definition client_B :: json where
  "client_B = JObj [(''name'', JStr ''B'')]"

definition progress_index_1 :: json where
  "progress_index_1 =
     JObj [(''clientIndex'', JNum 1), (''date'', JStr ''2024-01-01''), (''weight'', JStr ''70'')]"

definition progress_index_5 :: json where
  "progress_index_5 = JObj [(''clientIndex'', JNum 5), (''date'', JStr ''2024-01-01'')]"

definition event_fields :: "(string \<times> json) list" where
  "event_fields =
     [(''clientId'', JStr ''uuid-1''), (''clientIndex'', JNum 0), (''date'', JStr ''2024-02-02''),
      (''note'', JStr ''first'')]"

text \<open>A document without settings, and one whose only progress record names no client
  at all.\<close>

definition no_settings_state :: json where
  "no_settings_state =
     JObj [(''clients'', JArr [] []), (''programs'', JArr [] []), (''exercises'', JArr [] []),
           (''progress'', JArr [] []), (''events'', JArr [] [])]"

definition orphan_state :: json where
  "orphan_state =
     JObj [(''clients'', JArr [JObj [(''id'', JStr ''c1''), (''name'', JStr ''A'')]] []),
           (''programs'', JArr [] []), (''exercises'', JArr [] []),
           (''progress'', JArr [JObj [(''date'', JStr ''2024-01-01''), (''weight'', JStr ''70'')]] []),
           (''events'', JArr [] []),
           (''settings'', JObj [(''theme'', JStr ''light''), (''language'', JStr ''en'')])]"

text \<open>The migrated snapshot after the client \<^verbatim>\<open>uuid-1\<close> has been deleted.\<close>

definition after_delete :: json where
  "after_delete =
     JObj [(''clients'', JArr [JObj [(''name'', JStr ''A''), (''id'', JStr ''uuid-0'')]] []),
           (''programs'',
              JArr [JObj [(''name'', JStr ''Strength''),
                          (''exercises'', JArr [JStr ''squat'', JStr ''row'', JStr ''press''] [])]] []),
           (''exercises'', JArr [] []),
           (''progress'', JArr [] []),
           (''events'', JArr [] []),
           (''settings'', JObj [(''theme'', JStr ''dark''), (''language'', JStr ''fa'')])]"


definition sample_parse :: "string \<Rightarrow> json option" where
  "sample_parse text =
     (if text = ''{}'' then Some (JObj [])
      else if text = ''backup of migrated_state'' then Some migrated_state
      else None)"

definition sample_ui :: "json \<Rightarrow> completion" where
  "sample_ui st = Normal"

section \<open>Properties of the store operations\<close>

subsection \<open>Reading and assigning properties\<close>

lemma get_prop_set_prop_other: "k' \<noteq> k \<Longrightarrow> get_prop (set_prop st k v) k' = get_prop st k'"
  by (cases st) (auto simp: update_conv')

lemma get_prop_set_prop_same: "get_prop st a = Some v0 \<Longrightarrow> get_prop (set_prop st k v) k = Some v"
  by (cases st) (auto simp: update_conv')

lemma set_prop_triv: "get_prop st k = Some v \<Longrightarrow> set_prop st k v = st"
  by (cases st) (auto simp: update_triv)

lemma set_prop_twice: "set_prop (set_prop st k v) k w = set_prop st k w"
  by (cases st) auto

subsection \<open>Migration: running it again\<close>

lemma client_callback_again:
  assumes "generateId ''client'' (src k) \<noteq> []"
  shows "fst (client_callback src2 k2 (fst (client_callback src k c))) = fst (client_callback src k c)"
  using assms by (cases c) (auto simp: client_callback_def update_conv')

lemma assign_ids_again:
  assumes ok: "\<forall>n. generateId ''client'' (src n) \<noteq> []"
  shows "assign_ids src k cs = (c, cs', ids, k') \<Longrightarrow> \<exists>k''. assign_ids src2 k2 cs' = (c, cs', ids, k'')"
proof (induction cs arbitrary: k k2 c cs' ids k')
  case Nil
  then show ?case by simp
next
  case (Cons a cs)
  show ?case
  proof (cases "a = JNull")
    case True
    with Cons.prems show ?thesis by auto
  next
    case False
    obtain a1 k1 where cb: "client_callback src k a = (a1, k1)" by force
    obtain c0 r0 i0 j0 where rec: "assign_ids src k1 cs = (c0, r0, i0, j0)"
      using prod_cases4 by blast
    from Cons.prems False cb rec have eqs: "c = c0" "cs' = a1 # r0" "ids = get_prop a1 ''id'' # i0" "k' = j0"
      by auto
    have a1nn: "a1 \<noteq> JNull" using cb False by (cases a) (auto simp: client_callback_def split: if_splits)
    have again: "fst (client_callback src2 k2 a1) = a1"
      using client_callback_again[of src k src2 k2 a] ok cb by simp
    then obtain k3 where cb2: "client_callback src2 k2 a1 = (a1, k3)"
      by (metis prod.collapse)
    from Cons.IH[OF rec, of k3] obtain k4 where "assign_ids src2 k3 r0 = (c0, r0, i0, k4)" by blast
    with cb2 a1nn eqs show ?thesis by auto
  qed
qed

lemma migrate_one_stripped:
  "legacy_callback ids (strip_clientIndex r) = strip_clientIndex r"
  "truthy (strip_clientIndex r)"
  "strip_clientIndex (strip_clientIndex r) = strip_clientIndex r"
  by (simp_all add: legacy_callback_def strip_clientIndex_def delete_conv' delete_idem)

lemma migrate_records_again: "migrate_records ids2 (migrate_records ids rs) = migrate_records ids rs"
  unfolding migrate_records_def
  by (induction rs) (auto simp: migrate_one_stripped)

lemma migrate_records_no_null: "JNull \<notin> set (migrate_records ids rs)"
  unfolding migrate_records_def by (auto simp: strip_clientIndex_def)


lemma array_receiver_Some:
  "array_receiver m v = Some (xs, ps) \<longleftrightarrow> v = Some (JArr xs ps) \<and> map_of ps m = None"
  by (cases "(m, v)" rule: array_receiver.cases) auto

lemma migrate_clients_fix:
  assumes "get_prop s ''clients'' = Some (JArr cs qs)" "map_of qs ''map'' = None"
    and "assign_ids src k cs = (c, cs, ids, k')" "c = Normal \<Longrightarrow> qs = []"
  shows "migrate_clients src k s = (c, s, ids, k')"
  using assms by (cases c) (simp_all add: migrate_clients_def set_prop_triv)

lemma migrate_collection_throw:
  assumes "migrate_collection name ids s = (TypeError, s')" "get_prop t name = get_prop s name"
  shows "s' = s" "migrate_collection name ids2 t = (TypeError, t)"
  using assms by (auto simp: migrate_collection_def split: option.splits if_splits)

lemma migrate_collection_Normal:
  assumes "migrate_collection name ids s = (Normal, s')"
  shows "\<exists>rs ps. get_prop s name = Some (JArr rs ps) \<and> map_of ps ''map'' = None \<and> JNull \<notin> set rs \<and>
           s' = set_prop s name (JArr (migrate_records ids rs) [])"
  using assms by (auto simp: migrate_collection_def array_receiver_Some split: option.splits if_splits)

lemma migrate_collection_fix:
  assumes "get_prop s name = Some (JArr (migrate_records ids rs) [])"
  shows "migrate_collection name ids2 s = (Normal, s)"
  using assms by (simp add: migrate_collection_def migrate_records_no_null migrate_records_again set_prop_triv)

lemma migrateState_again:
  assumes ok: "\<forall>n. generateId ''client'' (src n) \<noteq> []"
    and first: "migrateState src k st = (c, st', k')"
  shows "\<exists>k''. migrateState src2 k2 st' = (c, st', k'')"
proof (cases "array_receiver ''map'' (get_prop st ''clients'')")
  case None
  then have "migrateState src k st = (TypeError, st, k)" "migrateState src2 k2 st = (TypeError, st, k2)"
    by (simp_all add: migrateState_def migrate_clients_def)
  with first show ?thesis by auto
next
  case (Some a)
  obtain cs ps where a: "a = (cs, ps)" by force
  with Some have g: "get_prop st ''clients'' = Some (JArr cs ps)" and nomap: "map_of ps ''map'' = None"
    by (simp_all add: array_receiver_Some)
  obtain c1 cs' ids k1 where as: "assign_ids src k cs = (c1, cs', ids, k1)"
    using prod_cases4 by blast
  from assign_ids_again[OF ok as] obtain k3 where as2: "assign_ids src2 k2 cs' = (c1, cs', ids, k3)"
    by blast
  show ?thesis
  proof (cases c1)
    case TypeError
    let ?s = "set_prop st ''clients'' (JArr cs' ps)"
    from Some a as TypeError have "migrateState src k st = (TypeError, ?s, k1)"
      by (simp add: migrateState_def migrate_clients_def)
    with first have r: "c = TypeError" "st' = ?s" by auto
    have "get_prop ?s ''clients'' = Some (JArr cs' ps)" using g by (rule get_prop_set_prop_same)
    from migrate_clients_fix[OF this nomap as2] TypeError
    have "migrate_clients src2 k2 ?s = (TypeError, ?s, ids, k3)" by simp
    then have "migrateState src2 k2 ?s = (TypeError, ?s, k3)" by (simp add: migrateState_def)
    with r show ?thesis by auto
  next
    case Normal
    let ?s1 = "set_prop st ''clients'' (JArr cs' [])"
    from Some a as Normal have mc: "migrate_clients src k st = (Normal, ?s1, ids, k1)"
      by (simp add: migrate_clients_def)
    have g1: "get_prop ?s1 ''clients'' = Some (JArr cs' [])" using g by (rule get_prop_set_prop_same)
    have fix1: "migrate_clients src2 k2 s = (Normal, s, ids, k3)"
      if "get_prop s ''clients'' = Some (JArr cs' [])" for s
      using migrate_clients_fix[OF that _ as2] Normal by simp
    obtain c2 s2 where mp: "migrate_collection ''progress'' ids ?s1 = (c2, s2)" by force
    show ?thesis
    proof (cases c2)
      case TypeError
      from migrate_collection_throw[OF mp[unfolded TypeError] refl]
      have s2: "s2 = ?s1" and again: "migrate_collection ''progress'' ids ?s1 = (TypeError, ?s1)" by auto
      from mc mp TypeError s2 have "migrateState src k st = (TypeError, ?s1, k1)"
        by (simp add: migrateState_def)
      with first have r: "c = TypeError" "st' = ?s1" by auto
      from fix1[OF g1] again have "migrateState src2 k2 ?s1 = (TypeError, ?s1, k3)"
        by (simp add: migrateState_def)
      with r show ?thesis by auto
    next
      case Normal
      note n2 = this
      from migrate_collection_Normal[OF mp[unfolded n2]] obtain rs qs where
        gp: "get_prop ?s1 ''progress'' = Some (JArr rs qs)" and
        s2: "s2 = set_prop ?s1 ''progress'' (JArr (migrate_records ids rs) [])" by blast
      have g2c: "get_prop s2 ''clients'' = Some (JArr cs' [])"
        using g1 by (simp add: s2 get_prop_set_prop_other)
      have g2p: "get_prop s2 ''progress'' = Some (JArr (migrate_records ids rs) [])"
        unfolding s2 using gp by (rule get_prop_set_prop_same)
      obtain c3 s3 where me: "migrate_collection ''events'' ids s2 = (c3, s3)" by force
      from mc mp n2 me have one: "migrateState src k st = (c3, s3, k1)"
        by (simp add: migrateState_def)
      with first have r: "c = c3" "st' = s3" by auto
      show ?thesis
      proof (cases c3)
        case TypeError
        from migrate_collection_throw[OF me[unfolded TypeError] refl]
        have s3: "s3 = s2" and again: "migrate_collection ''events'' ids s2 = (TypeError, s2)" by auto
        from fix1[OF g2c] migrate_collection_fix[OF g2p] again
        have "migrateState src2 k2 s2 = (TypeError, s2, k3)"
          by (simp add: migrateState_def)
        with r s3 TypeError show ?thesis by auto
      next
        case Normal
        from migrate_collection_Normal[OF me[unfolded Normal]] obtain es ts where
          ge: "get_prop s2 ''events'' = Some (JArr es ts)" and
          s3: "s3 = set_prop s2 ''events'' (JArr (migrate_records ids es) [])" by blast
        have g3c: "get_prop s3 ''clients'' = Some (JArr cs' [])"
          using g2c by (simp add: s3 get_prop_set_prop_other)
        have g3p: "get_prop s3 ''progress'' = Some (JArr (migrate_records ids rs) [])"
          using g2p by (simp add: s3 get_prop_set_prop_other)
        have g3e: "get_prop s3 ''events'' = Some (JArr (migrate_records ids es) [])"
          unfolding s3 using ge by (rule get_prop_set_prop_same)
        from fix1[OF g3c] migrate_collection_fix[OF g3p] migrate_collection_fix[OF g3e]
        have "migrateState src2 k2 s3 = (Normal, s3, k3)"
          by (simp add: migrateState_def)
        with r Normal show ?thesis by auto
      qed
    qed
  qed
qed


subsection \<open>Migration: a run that completes\<close>

lemma migrate_clients_Normal:
  assumes "migrate_clients src k st = (Normal, st1, ids, k1)"
  shows "\<exists>cs ps cs'. get_prop st ''clients'' = Some (JArr cs ps) \<and>
           assign_ids src k cs = (Normal, cs', ids, k1) \<and>
           st1 = set_prop st ''clients'' (JArr cs' [])"
  using assms
  by (auto simp: migrate_clients_def array_receiver_Some split: option.splits prod.splits completion.splits)

lemma migrateState_Normal:
  assumes run: "migrateState src k st = (Normal, st', k')"
  shows "\<exists>cs ps cs'. get_prop st ''clients'' = Some (JArr cs ps) \<and>
           assign_ids src k cs = (Normal, cs', indexToId_of src k st, k') \<and>
           get_prop st' ''clients'' = Some (JArr cs' [])"
    and "\<exists>rs qs. get_prop st ''progress'' = Some (JArr rs qs) \<and> JNull \<notin> set rs \<and>
           get_prop st' ''progress'' = Some (JArr (migrate_records (indexToId_of src k st) rs) [])"
    and "\<exists>es ts. get_prop st ''events'' = Some (JArr es ts) \<and> JNull \<notin> set es \<and>
           get_prop st' ''events'' = Some (JArr (migrate_records (indexToId_of src k st) es) [])"
    and "key \<noteq> ''clients'' \<Longrightarrow> key \<noteq> ''progress'' \<Longrightarrow> key \<noteq> ''events'' \<Longrightarrow>
           get_prop st' key = get_prop st key"
proof -
  obtain c1 s1 ids k1 where mc: "migrate_clients src k st = (c1, s1, ids, k1)"
    using prod_cases4 by blast
  with run have c1: "c1 = Normal" by (auto simp: migrateState_def split: completion.splits)
  have ids: "indexToId_of src k st = ids" by (simp add: indexToId_of_def mc)
  from migrate_clients_Normal[OF mc[unfolded c1]] obtain cs ps cs' where
    g: "get_prop st ''clients'' = Some (JArr cs ps)" and
    as: "assign_ids src k cs = (Normal, cs', ids, k1)" and
    s1: "s1 = set_prop st ''clients'' (JArr cs' [])" by blast
  obtain c2 s2 where mp: "migrate_collection ''progress'' ids s1 = (c2, s2)" by force
  with run mc c1 have c2: "c2 = Normal" by (auto simp: migrateState_def split: completion.splits)
  from migrate_collection_Normal[OF mp[unfolded c2]] obtain rs qs where
    gp: "get_prop s1 ''progress'' = Some (JArr rs qs)" and nr: "JNull \<notin> set rs" and
    s2: "s2 = set_prop s1 ''progress'' (JArr (migrate_records ids rs) [])" by blast
  obtain c3 s3 where me: "migrate_collection ''events'' ids s2 = (c3, s3)" by force
  with run mc c1 mp c2 have r: "c3 = Normal" "s3 = st'" "k1 = k'" by (auto simp: migrateState_def)
  from migrate_collection_Normal[OF me[unfolded r(1)]] obtain es ts where
    ge: "get_prop s2 ''events'' = Some (JArr es ts)" and ne: "JNull \<notin> set es" and
    s3: "s3 = set_prop s2 ''events'' (JArr (migrate_records ids es) [])" by blast
  have g1c: "get_prop s1 ''clients'' = Some (JArr cs' [])"
    unfolding s1 using g by (rule get_prop_set_prop_same)
  have g2p: "get_prop s2 ''progress'' = Some (JArr (migrate_records ids rs) [])"
    unfolding s2 using gp by (rule get_prop_set_prop_same)
  have g3e: "get_prop s3 ''events'' = Some (JArr (migrate_records ids es) [])"
    unfolding s3 using ge by (rule get_prop_set_prop_same)
  have f1: "get_prop st ''progress'' = Some (JArr rs qs)"
    using gp by (simp add: s1 get_prop_set_prop_other)
  have f2: "get_prop st ''events'' = Some (JArr es ts)"
    using ge by (simp add: s1 s2 get_prop_set_prop_other)
  have f3: "get_prop s3 ''clients'' = Some (JArr cs' [])"
    using g1c by (simp add: s2 s3 get_prop_set_prop_other)
  have f4: "get_prop s3 ''progress'' = Some (JArr (migrate_records ids rs) [])"
    using g2p by (simp add: s3 get_prop_set_prop_other)
  show "\<exists>cs ps cs'. get_prop st ''clients'' = Some (JArr cs ps) \<and>
           assign_ids src k cs = (Normal, cs', indexToId_of src k st, k') \<and>
           get_prop st' ''clients'' = Some (JArr cs' [])"
    using g as f3 r ids by auto
  show "\<exists>rs qs. get_prop st ''progress'' = Some (JArr rs qs) \<and> JNull \<notin> set rs \<and>
           get_prop st' ''progress'' = Some (JArr (migrate_records (indexToId_of src k st) rs) [])"
    using f1 nr f4 r ids by auto
  show "\<exists>es ts. get_prop st ''events'' = Some (JArr es ts) \<and> JNull \<notin> set es \<and>
           get_prop st' ''events'' = Some (JArr (migrate_records (indexToId_of src k st) es) [])"
    using f2 ne g3e r ids by auto
  show "get_prop st' key = get_prop st key"
    if "key \<noteq> ''clients''" "key \<noteq> ''progress''" "key \<noteq> ''events''"
    using that unfolding r(2)[symmetric] s3 s2 s1 by (simp add: get_prop_set_prop_other)
qed

lemma migrateState_Normal_collection:
  assumes run: "migrateState src k st = (Normal, st', k')"
    and name: "name = ''progress'' \<or> name = ''events''"
    and coll: "get_prop st name = Some (JArr rs ps)"
  shows "get_prop st' name = Some (JArr (migrate_records (indexToId_of src k st) rs) [])"
proof -
  from migrateState_Normal(2)[OF run] obtain rs0 qs where
    p: "get_prop st ''progress'' = Some (JArr rs0 qs)"
       "get_prop st' ''progress'' = Some (JArr (migrate_records (indexToId_of src k st) rs0) [])"
    by blast
  from migrateState_Normal(3)[OF run] obtain es0 ts where
    e: "get_prop st ''events'' = Some (JArr es0 ts)"
       "get_prop st' ''events'' = Some (JArr (migrate_records (indexToId_of src k st) es0) [])"
    by blast
  from name show ?thesis
  proof
    assume "name = ''progress''"
    with p coll show ?thesis by simp
  next
    assume "name = ''events''"
    with e coll show ?thesis by simp
  qed
qed

lemma migrate_records_append:
  "migrate_records ids (xs @ ys) = migrate_records ids xs @ migrate_records ids ys"
  by (simp add: migrate_records_def)

lemma migrate_records_Cons:
  "migrate_records ids (r # ys) =
     (if truthy (legacy_callback ids r) then [strip_clientIndex (legacy_callback ids r)] else []) @
     migrate_records ids ys"
  by (simp add: migrate_records_def)

lemma assign_ids_Normal:
  "assign_ids src k cs = (Normal, cs', ids, k') \<Longrightarrow>
     length cs' = length cs \<and> ids = map (\<lambda>c. get_prop c ''id'') cs'"
proof (induction cs arbitrary: k cs' ids k')
  case Nil
  then show ?case by simp
next
  case (Cons a cs)
  then show ?case
    by (auto split: if_splits prod.splits)
qed

lemma assign_ids_fresh:
  assumes "assign_ids src k cs = (Normal, cs', ids, k')"
    and "\<forall>c\<in>set cs. \<not> truthy_opt (get_prop c ''id'')" and "i < length cs"
  shows "cs' ! i = set_prop (cs ! i) ''id'' (JStr (generateId ''client'' (src (k + i))))"
  using assms
proof (induction cs arbitrary: k cs' ids k' i)
  case Nil
  then show ?case by simp
next
  case (Cons a cs)
  from Cons.prems(1) have an: "a \<noteq> JNull" by (auto split: if_splits)
  from Cons.prems(2) have cb: "client_callback src k a = (set_prop a ''id'' (JStr (generateId ''client'' (src k))), Suc k)"
    by (simp add: client_callback_def)
  obtain c0 r0 i0 j0 where rec: "assign_ids src (Suc k) cs = (c0, r0, i0, j0)"
    using prod_cases4 by blast
  from Cons.prems(1) an cb rec have eqs: "c0 = Normal" "cs' = set_prop a ''id'' (JStr (generateId ''client'' (src k))) # r0"
    by auto
  show ?case
  proof (cases i)
    case 0
    then show ?thesis by (simp add: eqs)
  next
    case (Suc j)
    with Cons.prems have "j < length cs" "\<forall>c\<in>set cs. \<not> truthy_opt (get_prop c ''id'')" by auto
    from Cons.IH[OF rec[unfolded eqs(1)] this(2) this(1)] Suc show ?thesis by (simp add: eqs)
  qed
qed

lemma map_get_index: "i < length ids \<Longrightarrow> map_get ids (of_nat i) = ids ! i"
  by (simp add: map_get_def)

lemma map_get_outside:
  assumes "\<forall>i<length ids. q \<noteq> of_nat i"
  shows "map_get ids q = None"
proof -
  have False if h: "0 \<le> q" "of_int \<lfloor>q\<rfloor> = q" "nat \<lfloor>q\<rfloor> < length ids"
  proof -
    from h(1) have "0 \<le> \<lfloor>q\<rfloor>" by simp
    then have e: "of_nat (nat \<lfloor>q\<rfloor>) = (of_int \<lfloor>q\<rfloor> :: rat)" by simp
    have "q = of_nat (nat \<lfloor>q\<rfloor>)" by (subst e) (rule h(2)[symmetric])
    with assms h(3) show False by blast
  qed
  then show ?thesis by (auto simp: map_get_def)
qed

subsection \<open>Migration: what it leaves alone\<close>

lemma migrate_collection_frame:
  "key \<noteq> name \<Longrightarrow> get_prop (snd (migrate_collection name ids st)) key = get_prop st key"
  by (simp add: migrate_collection_def get_prop_set_prop_other split: option.splits prod.splits)

lemma migrate_clients_frame:
  "key \<noteq> ''clients'' \<Longrightarrow> get_prop (fst (snd (migrate_clients src k st))) key = get_prop st key"
  by (simp add: migrate_clients_def get_prop_set_prop_other split: option.splits prod.splits completion.splits)

lemma migrateState_frame:
  assumes "key \<noteq> ''clients''" "key \<noteq> ''progress''" "key \<noteq> ''events''"
  shows "get_prop (fst (snd (migrateState src k st))) key = get_prop st key"
proof -
  obtain c1 s1 ids k1 where mc: "migrate_clients src k st = (c1, s1, ids, k1)"
    using prod_cases4 by blast
  obtain c2 s2 where mp: "migrate_collection ''progress'' ids s1 = (c2, s2)" by force
  obtain c3 s3 where me: "migrate_collection ''events'' ids s2 = (c3, s3)" by force
  have 1: "get_prop s1 key = get_prop st key"
    using migrate_clients_frame[OF assms(1), of src k st] mc by simp
  have 2: "get_prop s2 key = get_prop s1 key"
    using migrate_collection_frame[OF assms(2), of ids s1] mp by simp
  have 3: "get_prop s3 key = get_prop s2 key"
    using migrate_collection_frame[OF assms(3), of ids s2] me by simp
  show ?thesis
    using 1 2 3 by (cases c1; cases c2) (simp_all add: migrateState_def mc mp me)
qed

subsection \<open>Migration: when it completes\<close>

lemma assign_ids_completes: "fst (assign_ids src k cs) = Normal \<longleftrightarrow> JNull \<notin> set cs"
proof (induction cs arbitrary: k)
  case Nil
  then show ?case by simp
next
  case (Cons a cs)
  show ?case
  proof (cases "a = JNull")
    case True
    then show ?thesis by simp
  next
    case False
    obtain a1 k1 where cb: "client_callback src k a = (a1, k1)" by force
    obtain c0 r0 i0 j0 where rec: "assign_ids src k1 cs = (c0, r0, i0, j0)"
      using prod_cases4 by blast
    from Cons.IH[of k1] rec have "c0 = Normal \<longleftrightarrow> JNull \<notin> set cs" by simp
    with False cb rec show ?thesis by simp
  qed
qed

lemma migrate_clients_completes:
  "fst (migrate_clients src k st) = Normal \<longleftrightarrow> iterable ''map'' st ''clients''"
proof (cases "array_receiver ''map'' (get_prop st ''clients'')")
  case None
  then show ?thesis by (simp add: migrate_clients_def iterable_def)
next
  case (Some a)
  obtain cs ps where a: "a = (cs, ps)" by force
  obtain c0 r0 i0 j0 where as: "assign_ids src k cs = (c0, r0, i0, j0)"
    using prod_cases4 by blast
  with assign_ids_completes[of src k cs] have "c0 = Normal \<longleftrightarrow> JNull \<notin> set cs" by simp
  with Some a as show ?thesis
    by (cases c0) (simp_all add: migrate_clients_def iterable_def)
qed

lemma migrate_collection_completes:
  "fst (migrate_collection name ids s) = Normal \<longleftrightarrow> iterable ''map'' s name"
  by (simp add: migrate_collection_def iterable_def split: option.splits)

lemma iterable_set_prop_other:
  "name \<noteq> k \<Longrightarrow> iterable m (set_prop st k v) name = iterable m st name"
  by (simp add: iterable_def get_prop_set_prop_other)

lemma migrateState_completes: "fst (migrateState src k st) = Normal \<longleftrightarrow> migratable st"
proof -
  obtain c1 s1 ids k1 where mc: "migrate_clients src k st = (c1, s1, ids, k1)"
    using prod_cases4 by blast
  obtain c2 s2 where mp: "migrate_collection ''progress'' ids s1 = (c2, s2)" by force
  obtain c3 s3 where me: "migrate_collection ''events'' ids s2 = (c3, s3)" by force
  have fst: "fst (migrateState src k st) = Normal \<longleftrightarrow> c1 = Normal \<and> c2 = Normal \<and> c3 = Normal"
    by (cases c1; cases c2) (simp_all add: migrateState_def mc mp me)
  have c1: "c1 = Normal \<longleftrightarrow> iterable ''map'' st ''clients''"
    using migrate_clients_completes[of src k st] mc by simp
  have c2: "c2 = Normal \<longleftrightarrow> iterable ''map'' s1 ''progress''"
    using migrate_collection_completes[of "''progress''" ids s1] mp by simp
  have c3: "c3 = Normal \<longleftrightarrow> iterable ''map'' s2 ''events''"
    using migrate_collection_completes[of "''events''" ids s2] me by simp
  have s1p: "iterable ''map'' s1 name = iterable ''map'' st name" if "name \<noteq> ''clients''" for name
    using migrate_clients_frame[OF that, of src k st] mc by (simp add: iterable_def)
  have s2e: "iterable ''map'' s2 ''events'' = iterable ''map'' s1 ''events''"
    using migrate_collection_frame[of "''events''" "''progress''" ids s1] mp
    by (simp add: iterable_def)
  show ?thesis
    unfolding fst c1 c2 c3 migratable_def s2e by (simp add: s1p)
qed

lemma migratable_run:
  assumes "migratable st"
  obtains st' k' where "migrateState src k st = (Normal, st', k')"
proof -
  from assms have "fst (migrateState src k st) = Normal" by (simp add: migrateState_completes)
  then show ?thesis using that by (cases "migrateState src k st") auto
qed

lemmas sample_run =
  migrateState_def migrate_clients_def migrate_collection_def migrate_records_def
  legacy_callback_def strip_clientIndex_def client_callback_def generateId_def map_get_def
  indexed_def show_nat.simps digit_def

lemma sample_migration: "migrateState sample_src 0 legacy_state = (Normal, migrated_state, 2)"
  by (simp add: legacy_state_def migrated_state_def sample_src_def sample_run)

lemma legacy_state_migratable: "migratable legacy_state"
  by (simp add: migratable_def iterable_def legacy_state_def)

lemma sample_src_truthy: "generateId ''client'' (sample_src n) \<noteq> []"
  by (simp add: sample_src_def generateId_def)

text \<open>The fallback of \<^verbatim>\<open>generateId\<close> never yields the empty string.\<close>

lemma generateId_fallback_truthy: "generateId prefix (ClockRandom now r) \<noteq> []"
  by (simp add: generateId_def)

subsection \<open>Migration: idempotence\<close>

text \<open>
  C2. The Migration Engine is idempotent: running \<^verbatim>\<open>migrateState\<close> a second time, right
  after a first run, completes the same way and leaves the store exactly as the first
  run left it. This holds for every raw state, including the ones on which the
  migration throws, provided the identifiers the platform generates are non-empty
  strings (which \<^verbatim>\<open>crypto.randomUUID()\<close> guarantees and the fallback has by
  construction).
\<close>

theorem migrateState_idempotent:
  assumes "\<forall>n. generateId ''client'' (src n) \<noteq> []"
    and "migrateState src k st = (c, st', k')"
  shows "\<exists>k''. migrateState src k' st' = (c, st', k'')"
  using assms by (rule migrateState_again)

theorem migrateState_idempotent_witness:
  "migrateState sample_src 0 legacy_state = (Normal, migrated_state, 2) \<and>
   (\<exists>k''. migrateState sample_src 2 migrated_state = (Normal, migrated_state, k''))"
  using migrateState_idempotent [of sample_src 0 legacy_state Normal migrated_state 2]
  by (simp add: sample_migration sample_src_truthy)

subsection \<open>Migration: what happens to one record\<close>

lemma is_object_get_set: "is_object v \<Longrightarrow> get_prop (set_prop v key x) key = Some x"
  by (cases v) (simp_all add: is_object_def update_conv')

lemma legacy_callback_resolved:
  assumes "\<not> truthy_opt (get_prop r ''clientId'')" "get_prop r ''clientIndex'' = Some (JNum q)"
    and "map_get ids q = Some v" "truthy v"
  shows "legacy_callback ids r = JObj (AList.update ''clientId'' v (own_props r))"
  using assms by (simp add: legacy_callback_def)

lemma legacy_callback_dropped:
  assumes "\<not> truthy_opt (get_prop r ''clientId'')" "get_prop r ''clientIndex'' = Some (JNum q)"
    and "\<not> truthy_opt (map_get ids q)"
  shows "legacy_callback ids r = JNull"
  using assms by (cases "map_get ids q") (simp_all add: legacy_callback_def)

lemma legacy_callback_kept:
  assumes "truthy_opt (get_prop r ''clientId'')"
  shows "legacy_callback ids r = r"
  using assms by (simp add: legacy_callback_def split: option.splits json.splits)

lemmas sample_records =
  client_A_def client_B_def progress_index_1_def progress_index_5_def event_fields_def

lemma legacy_state_collections:
  "get_prop legacy_state ''clients'' = Some (JArr [client_A, client_B] [])"
  "get_prop legacy_state ''progress'' = Some (JArr [progress_index_1, progress_index_5] [])"
  "get_prop legacy_state ''events'' = Some (JArr [JObj event_fields] [])"
  by (simp_all add: legacy_state_def sample_records)

lemma sample_indexToId:
  "indexToId_of sample_src 0 legacy_state = [Some (JStr ''uuid-0''), Some (JStr ''uuid-1'')]"
  by (simp add: indexToId_of_def legacy_state_def sample_src_def sample_run)

lemma legacy_reference_resolved_run:
  assumes run: "migrateState src k st = (Normal, st', k')"
    and clients: "get_prop st ''clients'' = Some (JArr cs cps)"
    and lack: "\<forall>c\<in>set cs. \<not> truthy_opt (get_prop c ''id'')"
    and name: "name = ''progress'' \<or> name = ''events''"
    and coll: "get_prop st name = Some (JArr (xs @ r # ys) ps)"
    and noid: "\<not> truthy_opt (get_prop r ''clientId'')"
    and idx: "get_prop r ''clientIndex'' = Some (JNum (of_nat i))"
    and pos: "i < length cs" "is_object (cs ! i)"
    and fresh: "generateId ''client'' (src (k + i)) \<noteq> []"
  shows "\<exists>cs' r'.
           get_prop st' ''clients'' = Some (JArr cs' []) \<and>
           get_prop (cs' ! i) ''id'' = Some (JStr (generateId ''client'' (src (k + i)))) \<and>
           get_prop st' name =
             Some (JArr (migrate_records (indexToId_of src k st) xs @ r' #
                         migrate_records (indexToId_of src k st) ys) []) \<and>
           get_prop r' ''clientId'' = get_prop (cs' ! i) ''id'' \<and>
           get_prop r' ''clientIndex'' = None \<and>
           (\<forall>key. key \<noteq> ''clientId'' \<and> key \<noteq> ''clientIndex'' \<longrightarrow>
                  get_prop r' key = map_of (own_props r) key)"
proof -
  let ?ids = "indexToId_of src k st"
  let ?new = "JStr (generateId ''client'' (src (k + i)))"
  let ?r' = "JObj (AList.delete ''clientIndex'' (AList.update ''clientId'' ?new (own_props r)))"
  from migrateState_Normal(1)[OF run] clients obtain cs' where
    as: "assign_ids src k cs = (Normal, cs', ?ids, k')" and
    c': "get_prop st' ''clients'' = Some (JArr cs' [])" by auto
  from assign_ids_Normal[OF as] have len: "length cs' = length cs"
    and ids: "?ids = map (\<lambda>c. get_prop c ''id'') cs'" by auto
  from assign_ids_fresh[OF as lack pos(1)] pos(2)
  have idi: "get_prop (cs' ! i) ''id'' = Some ?new" by (simp add: is_object_get_set)
  have "map_get ?ids (of_nat i) = Some ?new"
    using pos(1) len idi by (subst map_get_index) (simp_all add: ids)
  from legacy_callback_resolved[OF noid idx this] fresh
  have cb: "legacy_callback ?ids r = JObj (AList.update ''clientId'' ?new (own_props r))" by simp
  have "migrate_records ?ids (xs @ r # ys) = migrate_records ?ids xs @ ?r' # migrate_records ?ids ys"
    by (simp add: migrate_records_append migrate_records_Cons cb strip_clientIndex_def)
  with migrateState_Normal_collection[OF run name coll]
  have coll': "get_prop st' name = Some (JArr (migrate_records ?ids xs @ ?r' # migrate_records ?ids ys) [])"
    by simp
  have p1: "get_prop ?r' ''clientId'' = get_prop (cs' ! i) ''id''"
    by (simp add: idi delete_conv' update_conv')
  have p2: "get_prop ?r' ''clientIndex'' = None" by (simp add: delete_conv')
  have p3: "\<forall>key. key \<noteq> ''clientId'' \<and> key \<noteq> ''clientIndex'' \<longrightarrow>
                  get_prop ?r' key = map_of (own_props r) key"
    by (simp add: delete_conv' update_conv')
  show ?thesis
    apply (rule exI[where x=cs'], rule exI[where x="?r'"])
    using c' idi coll' p1 p2 p3 by simp
qed

lemma client_callback_primitive:
  "\<not> is_object c \<Longrightarrow> fst (client_callback src j c) = c \<and> get_prop c ''id'' = None"
  by (cases c) (simp_all add: is_object_def client_callback_def)

lemma assign_ids_nth:
  assumes "assign_ids src k cs = (Normal, cs', ids, k')" "i < length cs"
  shows "\<exists>j. cs' ! i = fst (client_callback src j (cs ! i))"
  using assms
proof (induction cs arbitrary: k cs' ids k' i)
  case Nil
  then show ?case by simp
next
  case (Cons a cs)
  from Cons.prems(1) have an: "a \<noteq> JNull" by (auto split: if_splits)
  obtain a1 k1 where cb: "client_callback src k a = (a1, k1)" by force
  obtain c0 r0 i0 j0 where rec: "assign_ids src k1 cs = (c0, r0, i0, j0)"
    using prod_cases4 by blast
  from Cons.prems(1) an cb rec have eqs: "c0 = Normal" "cs' = a1 # r0" by auto
  show ?case
  proof (cases i)
    case 0
    have "a1 = fst (client_callback src k a)" by (simp add: cb)
    with 0 eqs show ?thesis by auto
  next
    case (Suc n)
    with Cons.prems(2) have "n < length cs" by simp
    from Cons.IH[OF rec[unfolded eqs(1)] this] Suc eqs show ?thesis by simp
  qed
qed

lemma unresolvable_index:
  assumes as: "assign_ids src k cs = (Normal, cs', ids, k')"
    and out: "(\<forall>i<length cs. q \<noteq> of_nat i) \<or> (\<exists>i<length cs. q = of_nat i \<and> \<not> is_object (cs ! i))"
  shows "map_get ids q = None"
proof -
  from assign_ids_Normal[OF as] have len: "length cs' = length cs"
    and ids: "ids = map (\<lambda>c. get_prop c ''id'') cs'" by auto
  from out show ?thesis
  proof
    assume "\<forall>i<length cs. q \<noteq> of_nat i"
    then show ?thesis using len ids by (simp add: map_get_outside)
  next
    assume "\<exists>i<length cs. q = of_nat i \<and> \<not> is_object (cs ! i)"
    then obtain i where i: "i < length cs" "q = of_nat i" "\<not> is_object (cs ! i)" by blast
    from assign_ids_nth[OF as i(1)] obtain j where "cs' ! i = fst (client_callback src j (cs ! i))"
      by blast
    with client_callback_primitive[OF i(3), of src j] have "get_prop (cs' ! i) ''id'' = None"
      by simp
    then show ?thesis using i len by (simp add: map_get_index ids)
  qed
qed

lemma dangling_reference_dropped_run:
  assumes run: "migrateState src k st = (Normal, st', k')"
    and clients: "get_prop st ''clients'' = Some (JArr cs cps)"
    and name: "name = ''progress'' \<or> name = ''events''"
    and coll: "get_prop st name = Some (JArr (xs @ r # ys) ps)"
    and noid: "\<not> truthy_opt (get_prop r ''clientId'')"
    and idx: "get_prop r ''clientIndex'' = Some (JNum q)"
    and out: "(\<forall>i<length cs. q \<noteq> of_nat i) \<or>
              (\<exists>i<length cs. q = of_nat i \<and> \<not> is_object (cs ! i))"
  shows "get_prop st' name =
           Some (JArr (migrate_records (indexToId_of src k st) xs @
                       migrate_records (indexToId_of src k st) ys) [])"
proof -
  let ?ids = "indexToId_of src k st"
  from migrateState_Normal(1)[OF run] clients obtain cs' where
    as: "assign_ids src k cs = (Normal, cs', ?ids, k')" by auto
  from unresolvable_index[OF as out] have "map_get ?ids q = None" .
  then have "legacy_callback ?ids r = JNull"
    using legacy_callback_dropped[OF noid idx, of ?ids] by simp
  then have "migrate_records ?ids (xs @ r # ys) = migrate_records ?ids xs @ migrate_records ?ids ys"
    by (simp add: migrate_records_append migrate_records_Cons)
  with migrateState_Normal_collection[OF run name coll] show ?thesis by simp
qed

lemma record_with_clientId_kept_run:
  assumes run: "migrateState src k st = (Normal, st', k')"
    and name: "name = ''progress'' \<or> name = ''events''"
    and coll: "get_prop st name = Some (JArr (xs @ JObj fields # ys) ps)"
    and hasid: "truthy_opt (map_of fields ''clientId'')"
  shows "get_prop st' name =
           Some (JArr (migrate_records (indexToId_of src k st) xs @
                       JObj (AList.delete ''clientIndex'' fields) #
                       migrate_records (indexToId_of src k st) ys) []) \<and>
         (''clientIndex'' \<notin> fst ` set fields \<longrightarrow> AList.delete ''clientIndex'' fields = fields)"
proof -
  let ?ids = "indexToId_of src k st"
  have "legacy_callback ?ids (JObj fields) = JObj fields"
    using hasid by (simp add: legacy_callback_kept)
  then have "migrate_records ?ids (xs @ JObj fields # ys) =
      migrate_records ?ids xs @ JObj (AList.delete ''clientIndex'' fields) # migrate_records ?ids ys"
    by (simp add: migrate_records_append migrate_records_Cons strip_clientIndex_def)
  with migrateState_Normal_collection[OF run name coll] show ?thesis by simp
qed

text \<open>
  C5. Legacy reference resolution. Take a state whose three collections are arrays
  without \<^verbatim>\<open>null\<close> elements, whose clients all lack an \<^verbatim>\<open>id\<close>, and a progress record or
  calendar event \<open>r\<close> with no \<^verbatim>\<open>clientId\<close> and a numeric \<^verbatim>\<open>clientIndex\<close> that is the
  position \<open>i\<close> of a client object. Then the migration completes, the client at
  position \<open>i\<close> receives the identifier generated for it in this run (the clients before
  it have each used one draw), and in the place of \<open>r\<close> the migrated collection holds a
  record whose \<^verbatim>\<open>clientId\<close> is that identifier, which has no \<^verbatim>\<open>clientIndex\<close> and whose
  other fields are those of \<open>r\<close>.
\<close>

theorem legacy_reference_resolved:
  assumes shape: "migratable st"
    and clients: "get_prop st ''clients'' = Some (JArr cs cps)"
    and lack: "\<forall>c\<in>set cs. \<not> truthy_opt (get_prop c ''id'')"
    and name: "name = ''progress'' \<or> name = ''events''"
    and coll: "get_prop st name = Some (JArr (xs @ r # ys) ps)"
    and noid: "\<not> truthy_opt (get_prop r ''clientId'')"
    and idx: "get_prop r ''clientIndex'' = Some (JNum (of_nat i))"
    and pos: "i < length cs" "is_object (cs ! i)"
    and fresh: "generateId ''client'' (src (k + i)) \<noteq> []"
  shows "\<exists>st' k' cs' r'.
           migrateState src k st = (Normal, st', k') \<and>
           get_prop st' ''clients'' = Some (JArr cs' []) \<and>
           get_prop (cs' ! i) ''id'' = Some (JStr (generateId ''client'' (src (k + i)))) \<and>
           get_prop st' name =
             Some (JArr (migrate_records (indexToId_of src k st) xs @ r' #
                         migrate_records (indexToId_of src k st) ys) []) \<and>
           get_prop r' ''clientId'' = get_prop (cs' ! i) ''id'' \<and>
           get_prop r' ''clientIndex'' = None \<and>
           (\<forall>key. key \<noteq> ''clientId'' \<and> key \<noteq> ''clientIndex'' \<longrightarrow>
                  get_prop r' key = map_of (own_props r) key)"
proof -
  from shape obtain st' k' where run: "migrateState src k st = (Normal, st', k')"
    by (rule migratable_run)
  note result = legacy_reference_resolved_run[OF run clients lack name coll noid idx pos fresh]
  show ?thesis
    apply (rule exI[where x=st'], rule exI[where x=k'])
    using result run by simp
qed

theorem legacy_reference_resolved_witness:
  "\<exists>cs' r'.
     get_prop migrated_state ''clients'' = Some (JArr cs' []) \<and>
     get_prop (cs' ! 1) ''id'' = Some (JStr ''uuid-1'') \<and>
     get_prop migrated_state ''progress'' = Some (JArr [r'] []) \<and>
     get_prop r' ''clientId'' = get_prop (cs' ! 1) ''id'' \<and>
     get_prop r' ''clientIndex'' = None \<and>
     get_prop r' ''date'' = Some (JStr ''2024-01-01'') \<and>
     get_prop r' ''weight'' = Some (JStr ''70'')"
proof -
  have fresh: "generateId ''client'' (sample_src (0 + 1)) = ''uuid-1''"
    by (simp add: sample_src_def generateId_def show_nat.simps digit_def)
  have rest: "migrate_records (indexToId_of sample_src 0 legacy_state) [progress_index_5] = []"
    by (simp add: sample_indexToId progress_index_5_def migrate_records_def legacy_callback_def map_get_def)
  from legacy_reference_resolved [of legacy_state "[client_A, client_B]" "[]" "''progress''" "[]"
      progress_index_1 "[progress_index_5]" "[]" 1 sample_src 0]
  obtain cs' r' where
    "get_prop migrated_state ''clients'' = Some (JArr cs' [])"
    "get_prop (cs' ! 1) ''id'' = Some (JStr ''uuid-1'')"
    "get_prop migrated_state ''progress'' = Some (JArr [r'] [])"
    "get_prop r' ''clientId'' = get_prop (cs' ! 1) ''id''"
    "get_prop r' ''clientIndex'' = None"
    "\<forall>key. key \<noteq> ''clientId'' \<and> key \<noteq> ''clientIndex'' \<longrightarrow>
           get_prop r' key = map_of (own_props progress_index_1) key"
    unfolding fresh rest
    by (auto simp: sample_migration legacy_state_collections legacy_state_migratable
        client_A_def client_B_def progress_index_1_def is_object_def migrate_records_def)
  then show ?thesis
    by (intro exI[where x=cs'] exI[where x=r']) (simp add: progress_index_1_def)
qed

text \<open>
  C6. Dangling legacy references are dropped. Take a state whose three collections are
  arrays without \<^verbatim>\<open>null\<close> elements and a progress record or calendar event \<open>r\<close> with
  no \<^verbatim>\<open>clientId\<close> and a numeric \<^verbatim>\<open>clientIndex\<close> that \<^verbatim>\<open>indexToId\<close> does not resolve:
  it is not a position of the client sequence (out of range, negative or not an
  integer), or it is the position of a client that is not an object and so has no
  \<^verbatim>\<open>id\<close>. Then the migration completes, and the migrated collection is what the
  records before \<open>r\<close> and the records after \<open>r\<close> give: \<open>r\<close> leaves nothing behind.
\<close>

theorem dangling_reference_dropped:
  assumes shape: "migratable st"
    and clients: "get_prop st ''clients'' = Some (JArr cs cps)"
    and name: "name = ''progress'' \<or> name = ''events''"
    and coll: "get_prop st name = Some (JArr (xs @ r # ys) ps)"
    and noid: "\<not> truthy_opt (get_prop r ''clientId'')"
    and idx: "get_prop r ''clientIndex'' = Some (JNum q)"
    and out: "(\<forall>i<length cs. q \<noteq> of_nat i) \<or>
              (\<exists>i<length cs. q = of_nat i \<and> \<not> is_object (cs ! i))"
  shows "\<exists>st' k'.
           migrateState src k st = (Normal, st', k') \<and>
           get_prop st' name =
             Some (JArr (migrate_records (indexToId_of src k st) xs @
                         migrate_records (indexToId_of src k st) ys) [])"
proof -
  from shape obtain st' k' where run: "migrateState src k st = (Normal, st', k')"
    by (rule migratable_run)
  note result = dangling_reference_dropped_run[OF run clients name coll noid idx out]
  show ?thesis
    apply (rule exI[where x=st'], rule exI[where x=k'])
    using result run by simp
qed

theorem dangling_reference_dropped_witness:
  "get_prop legacy_state ''progress'' = Some (JArr [progress_index_1, progress_index_5] []) \<and>
   get_prop progress_index_5 ''clientIndex'' = Some (JNum 5) \<and>
   get_prop migrated_state ''progress'' =
     Some (JArr (migrate_records (indexToId_of sample_src 0 legacy_state) [progress_index_1]) [])"
proof -
  have out: "(\<forall>i<length [client_A, client_B]. (5::rat) \<noteq> of_nat i) \<or>
             (\<exists>i<length [client_A, client_B]. (5::rat) = of_nat i \<and>
                \<not> is_object ([client_A, client_B] ! i))"
    by (simp add: less_Suc_eq)
  from dangling_reference_dropped [of legacy_state "[client_A, client_B]" "[]" "''progress''"
      "[progress_index_1]" progress_index_5 "[]" "[]" 5 sample_src 0] out
  have "get_prop migrated_state ''progress'' =
     Some (JArr (migrate_records (indexToId_of sample_src 0 legacy_state) [progress_index_1] @
                 migrate_records (indexToId_of sample_src 0 legacy_state) []) [])"
    by (simp add: sample_migration legacy_state_collections legacy_state_migratable
        progress_index_5_def)
  then show ?thesis
    by (simp add: legacy_state_collections progress_index_5_def migrate_records_def)
qed

text \<open>
  C7, as amended. On a state whose three collections are arrays without \<^verbatim>\<open>null\<close>
  elements the migration completes, and a progress record or calendar event that
  already carries a \<^verbatim>\<open>clientId\<close> is kept in its place with all its fields except
  \<^verbatim>\<open>clientIndex\<close>, which the last step of the migration removes from every record; it
  passes through unchanged exactly when it has no \<^verbatim>\<open>clientIndex\<close> field. The sample
  event carries both fields and comes out without its \<^verbatim>\<open>clientIndex\<close>.
\<close>

theorem record_with_clientId_kept:
  assumes shape: "migratable st"
    and name: "name = ''progress'' \<or> name = ''events''"
    and coll: "get_prop st name = Some (JArr (xs @ JObj fields # ys) ps)"
    and hasid: "truthy_opt (map_of fields ''clientId'')"
  shows "\<exists>st' k'.
           migrateState src k st = (Normal, st', k') \<and>
           get_prop st' name =
             Some (JArr (migrate_records (indexToId_of src k st) xs @
                         JObj (AList.delete ''clientIndex'' fields) #
                         migrate_records (indexToId_of src k st) ys) []) \<and>
           (''clientIndex'' \<notin> fst ` set fields \<longrightarrow> AList.delete ''clientIndex'' fields = fields)"
proof -
  from shape obtain st' k' where run: "migrateState src k st = (Normal, st', k')"
    by (rule migratable_run)
  note result = record_with_clientId_kept_run[OF run name coll hasid]
  show ?thesis
    apply (rule exI[where x=st'], rule exI[where x=k'])
    using result run by simp
qed

theorem record_with_clientId_kept_witness:
  "get_prop legacy_state ''events'' = Some (JArr [JObj event_fields] []) \<and>
   get_prop migrated_state ''events'' =
     Some (JArr [JObj [(''clientId'', JStr ''uuid-1''), (''date'', JStr ''2024-02-02''),
                       (''note'', JStr ''first'')]] [])"
  using record_with_clientId_kept [of legacy_state "''events''" "[]" event_fields "[]" "[]"
      sample_src 0]
  by (simp add: sample_migration legacy_state_collections legacy_state_migratable event_fields_def
      migrate_records_def)

theorem record_with_clientId_counterexample:
  "migrateState sample_src 0 legacy_state = (Normal, migrated_state, 2) \<and>
   get_prop legacy_state ''events'' = Some (JArr [JObj event_fields] []) \<and>
   truthy_opt (get_prop (JObj event_fields) ''clientId'') \<and>
   get_prop (JObj event_fields) ''clientIndex'' = Some (JNum 0) \<and>
   get_prop migrated_state ''events'' \<noteq> Some (JArr [JObj event_fields] [])"
  by (simp add: sample_migration legacy_state_collections)
     (simp add: event_fields_def migrated_state_def)

subsection \<open>Settings\<close>

text \<open>
  C8, as amended. The Migration Engine never touches the settings: after
  \<^verbatim>\<open>migrateState\<close>, however it completes, \<^verbatim>\<open>state.settings\<close> is what the raw state had,
  and a missing settings object is still missing. The same holds after a restore and
  after a load, whose store is the parsed document passed through the migration. The
  defaults \<^verbatim>\<open>{theme: "light", language: "en"}\<close> belong to the store the script starts
  with, which a load keeps when nothing is stored. On the document without settings the
  migration completes and there are still no settings.
\<close>

theorem migration_keeps_settings:
  "get_prop (fst (snd (migrateState src k st))) ''settings'' = get_prop st ''settings'' \<and>
   (JSON_parse text = Some data \<longrightarrow>
      get_prop (fst (snd (replaceState JSON_parse src ui k text st))) ''settings'' =
      get_prop data ''settings'') \<and>
   (JSON_parse text = Some data \<and> text \<noteq> [] \<longrightarrow>
      get_prop (fst (snd (loadState JSON_parse src k (Some text) st))) ''settings'' =
      get_prop data ''settings'') \<and>
   get_prop (fst (snd (loadState JSON_parse src k None st))) ''settings'' = get_prop st ''settings''"
proof -
  have m: "get_prop (fst (snd (migrateState src k s))) ''settings'' = get_prop s ''settings''" for s
    by (rule migrateState_frame) simp_all
  have r: "fst (snd (replaceState JSON_parse src ui k text st)) = fst (snd (migrateState src k data))"
    if "JSON_parse text = Some data"
    using that by (simp add: replaceState_def split: prod.splits completion.splits)
  have l: "fst (snd (loadState JSON_parse src k stored st)) =
           fst (snd (migrateState src k
             (case stored of None \<Rightarrow> st
              | Some text \<Rightarrow> if text = [] then st
                  else (case JSON_parse text of None \<Rightarrow> st | Some data \<Rightarrow> data))))" for stored
    by (simp add: loadState_def split: prod.splits completion.splits)
  show ?thesis
    by (simp add: m r l)
qed

theorem migration_keeps_settings_witness:
  "get_prop (fst (snd (migrateState sample_src 0 legacy_state))) ''settings'' =
     Some (JObj [(''theme'', JStr ''dark''), (''language'', JStr ''fa'')]) \<and>
   get_prop (fst (snd (replaceState sample_parse sample_src sample_ui 0 ''{}'' initial_state)))
     ''settings'' = None"
  using migration_keeps_settings [of sample_src 0 legacy_state]
    migration_keeps_settings [of sample_src 0 initial_state sample_parse "''{}''" "JObj []" sample_ui]
  by (simp add: legacy_state_def sample_parse_def)

theorem default_settings_counterexample:
  "get_prop no_settings_state ''settings'' = None \<and>
   migrateState sample_src 0 no_settings_state = (Normal, no_settings_state, 0) \<and>
   get_prop no_settings_state ''settings'' \<noteq>
     Some (JObj [(''theme'', JStr ''light''), (''language'', JStr ''en'')])"
  by (simp add: no_settings_state_def sample_run)

subsection \<open>Deleting a client\<close>

lemma filter_collection_frame:
  "k' \<noteq> name \<Longrightarrow> get_prop (snd (filter_collection name key cid st)) k' = get_prop st k'"
  by (simp add: filter_collection_def get_prop_set_prop_other split: option.splits prod.splits)

lemma filter_collection_Normal:
  assumes "filter_collection name key cid st = (Normal, st')"
  shows "\<exists>xs ps. get_prop st name = Some (JArr xs ps) \<and> JNull \<notin> set xs \<and>
           st' = set_prop st name (JArr (filter (\<lambda>x. \<not> strict_equals (get_prop x key) cid) xs) [])"
  using assms
  by (auto simp: filter_collection_def array_receiver_Some split: option.splits if_splits)

lemma filter_collection_result:
  assumes "filter_collection name key cid st = (Normal, st')"
  shows "\<exists>xs ps. get_prop st name = Some (JArr xs ps) \<and>
           get_prop st' name = Some (JArr (filter (\<lambda>x. \<not> strict_equals (get_prop x key) cid) xs) [])"
proof -
  from filter_collection_Normal[OF assms] obtain xs ps where
    g: "get_prop st name = Some (JArr xs ps)" and
    s: "st' = set_prop st name (JArr (filter (\<lambda>x. \<not> strict_equals (get_prop x key) cid) xs) [])"
    by blast
  from g have "get_prop st' name = Some (JArr (filter (\<lambda>x. \<not> strict_equals (get_prop x key) cid) xs) [])"
    unfolding s by (rule get_prop_set_prop_same)
  with g show ?thesis by blast
qed

lemma deleteClient_Normal:
  assumes "deleteClient cid st = (Normal, st')"
  shows "\<exists>cs ps. get_prop st ''clients'' = Some (JArr cs ps) \<and>
           get_prop st' ''clients'' = Some (JArr (filter (\<lambda>x. \<not> strict_equals (get_prop x ''id'') cid) cs) [])"
    and "\<exists>rs ps. get_prop st ''progress'' = Some (JArr rs ps) \<and>
           get_prop st' ''progress'' = Some (JArr (filter (\<lambda>x. \<not> strict_equals (get_prop x ''clientId'') cid) rs) [])"
    and "\<exists>es ps. get_prop st ''events'' = Some (JArr es ps) \<and>
           get_prop st' ''events'' = Some (JArr (filter (\<lambda>x. \<not> strict_equals (get_prop x ''clientId'') cid) es) [])"
proof -
  obtain c1 s1 where f1: "filter_collection ''clients'' ''id'' cid st = (c1, s1)" by force
  with assms have c1: "c1 = Normal" by (auto simp: deleteClient_def split: completion.splits)
  obtain c2 s2 where f2: "filter_collection ''progress'' ''clientId'' cid s1 = (c2, s2)" by force
  with assms f1 c1 have c2: "c2 = Normal" by (auto simp: deleteClient_def split: completion.splits)
  from assms f1 c1 f2 c2 have f3: "filter_collection ''events'' ''clientId'' cid s2 = (Normal, st')"
    by (simp add: deleteClient_def)
  have fr1: "get_prop s1 key = get_prop st key" if "key \<noteq> ''clients''" for key
    using filter_collection_frame[OF that, of "''id''" cid st] f1 by simp
  have fr2: "get_prop s2 key = get_prop s1 key" if "key \<noteq> ''progress''" for key
    using filter_collection_frame[OF that, of "''clientId''" cid s1] f2 by simp
  have fr3: "get_prop st' key = get_prop s2 key" if "key \<noteq> ''events''" for key
    using filter_collection_frame[OF that, of "''clientId''" cid s2] f3 by simp
  from filter_collection_result[OF f1[unfolded c1]]
  show "\<exists>cs ps. get_prop st ''clients'' = Some (JArr cs ps) \<and>
           get_prop st' ''clients'' = Some (JArr (filter (\<lambda>x. \<not> strict_equals (get_prop x ''id'') cid) cs) [])"
    by (simp add: fr2 fr3)
  from filter_collection_result[OF f2[unfolded c2]]
  show "\<exists>rs ps. get_prop st ''progress'' = Some (JArr rs ps) \<and>
           get_prop st' ''progress'' = Some (JArr (filter (\<lambda>x. \<not> strict_equals (get_prop x ''clientId'') cid) rs) [])"
    by (simp add: fr1 fr3)
  from filter_collection_result[OF f3]
  show "\<exists>es ps. get_prop st ''events'' = Some (JArr es ps) \<and>
           get_prop st' ''events'' = Some (JArr (filter (\<lambda>x. \<not> strict_equals (get_prop x ''clientId'') cid) es) [])"
    by (simp add: fr1 fr2)
qed

lemma deleteClient_other_keys:
  assumes "key \<noteq> ''clients''" "key \<noteq> ''progress''" "key \<noteq> ''events''"
  shows "get_prop (snd (deleteClient cid st)) key = get_prop st key"
proof -
  obtain c1 s1 where f1: "filter_collection ''clients'' ''id'' cid st = (c1, s1)" by force
  obtain c2 s2 where f2: "filter_collection ''progress'' ''clientId'' cid s1 = (c2, s2)" by force
  obtain c3 s3 where f3: "filter_collection ''events'' ''clientId'' cid s2 = (c3, s3)" by force
  have 1: "get_prop s1 key = get_prop st key"
    using filter_collection_frame[OF assms(1), of "''id''" cid st] f1 by simp
  have 2: "get_prop s2 key = get_prop s1 key"
    using filter_collection_frame[OF assms(2), of "''clientId''" cid s1] f2 by simp
  have 3: "get_prop s3 key = get_prop s2 key"
    using filter_collection_frame[OF assms(3), of "''clientId''" cid s2] f3 by simp
  show ?thesis
    using 1 2 3 by (cases c1; cases c2) (simp_all add: deleteClient_def f1 f2 f3)
qed

lemma sample_delete: "deleteClient (PStr ''uuid-1'') migrated_state = (Normal, after_delete)"
  by (simp add: deleteClient_def filter_collection_def strict_equals_def migrated_state_def
      after_delete_def)

text \<open>
  C3. Cascade delete. When the deletion of the client with identifier \<open>clientId\<close>
  returns, the three collections are arrays again, no client whose \<^verbatim>\<open>id\<close> is
  \<open>clientId\<close> is left in the client sequence, and no progress record and no calendar
  event left in the store has a \<^verbatim>\<open>clientId\<close> equal to it.
\<close>

theorem cascade_delete:
  assumes "deleteClient clientId st = (Normal, st')"
  shows "\<exists>clients progress events.
           get_prop st' ''clients'' = Some (JArr clients []) \<and>
           get_prop st' ''progress'' = Some (JArr progress []) \<and>
           get_prop st' ''events'' = Some (JArr events []) \<and>
           (\<forall>C. strict_equals (get_prop C ''id'') clientId \<longrightarrow> C \<notin> set clients) \<and>
           (\<forall>p\<in>set progress. \<not> strict_equals (get_prop p ''clientId'') clientId) \<and>
           (\<forall>e\<in>set events. \<not> strict_equals (get_prop e ''clientId'') clientId)"
proof -
  from deleteClient_Normal[OF assms] obtain cs rs es where r:
    "get_prop st' ''clients'' = Some (JArr (filter (\<lambda>x. \<not> strict_equals (get_prop x ''id'') clientId) cs) [])"
    "get_prop st' ''progress'' = Some (JArr (filter (\<lambda>x. \<not> strict_equals (get_prop x ''clientId'') clientId) rs) [])"
    "get_prop st' ''events'' = Some (JArr (filter (\<lambda>x. \<not> strict_equals (get_prop x ''clientId'') clientId) es) [])"
    by blast
  show ?thesis
    apply (rule exI[where x="filter (\<lambda>x. \<not> strict_equals (get_prop x ''id'') clientId) cs"])
    apply (rule exI[where x="filter (\<lambda>x. \<not> strict_equals (get_prop x ''clientId'') clientId) rs"])
    apply (rule exI[where x="filter (\<lambda>x. \<not> strict_equals (get_prop x ''clientId'') clientId) es"])
    using r by simp
qed

theorem cascade_delete_witness:
  "deleteClient (PStr ''uuid-1'') migrated_state = (Normal, after_delete) \<and>
   get_prop after_delete ''clients'' =
     Some (JArr [JObj [(''name'', JStr ''A''), (''id'', JStr ''uuid-0'')]] []) \<and>
   get_prop after_delete ''progress'' = Some (JArr [] []) \<and>
   get_prop after_delete ''events'' = Some (JArr [] [])"
  using cascade_delete [of "PStr ''uuid-1''" migrated_state after_delete] sample_delete
  by (simp add: after_delete_def)

text \<open>
  C10. Frame property of client deletion. Whatever the store and the identifier, and
  whether the deletion returns or throws, \<^verbatim>\<open>state.programs\<close>, \<^verbatim>\<open>state.exercises\<close> and
  \<^verbatim>\<open>state.settings\<close> are afterwards exactly what they were before; so is every property
  of the store other than \<^verbatim>\<open>clients\<close>, \<^verbatim>\<open>progress\<close> and \<^verbatim>\<open>events\<close>.
\<close>

theorem deleteClient_frame_property:
  "get_prop (snd (deleteClient clientId st)) ''programs'' = get_prop st ''programs'' \<and>
   get_prop (snd (deleteClient clientId st)) ''exercises'' = get_prop st ''exercises'' \<and>
   get_prop (snd (deleteClient clientId st)) ''settings'' = get_prop st ''settings'' \<and>
   (\<forall>key. key \<noteq> ''clients'' \<and> key \<noteq> ''progress'' \<and> key \<noteq> ''events'' \<longrightarrow>
          get_prop (snd (deleteClient clientId st)) key = get_prop st key)"
  by (simp add: deleteClient_other_keys)

theorem deleteClient_frame_property_witness:
  "get_prop (snd (deleteClient (PStr ''uuid-1'') migrated_state)) ''programs'' =
     Some (JArr [JObj [(''name'', JStr ''Strength''),
                       (''exercises'', JArr [JStr ''squat'', JStr ''row'', JStr ''press''] [])]] []) \<and>
   get_prop (snd (deleteClient (PStr ''uuid-1'') migrated_state)) ''exercises'' = Some (JArr [] []) \<and>
   get_prop (snd (deleteClient (PStr ''uuid-1'') migrated_state)) ''settings'' =
     Some (JObj [(''theme'', JStr ''dark''), (''language'', JStr ''fa'')])"
  using deleteClient_frame_property [of "PStr ''uuid-1''" migrated_state]
  by (simp add: migrated_state_def)

subsection \<open>Referential integrity\<close>

lemma collection_Some: "collection st name = Some xs \<longleftrightarrow> get_prop st name = Some (JArr xs [])"
  by (auto simp: collection_def split: option.splits json.splits if_splits)

lemma referential_integrity_iff:
  "referential_integrity st \<longleftrightarrow>
     (\<exists>cs rs es. get_prop st ''clients'' = Some (JArr cs []) \<and>
                 get_prop st ''progress'' = Some (JArr rs []) \<and>
                 get_prop st ''events'' = Some (JArr es []) \<and>
                 list_all (references cs) rs \<and> list_all (references cs) es)"
  by (cases "collection st ''clients''"; cases "collection st ''progress''";
      cases "collection st ''events''")
     (auto simp: referential_integrity_def collection_Some[symmetric])

lemma references_not_null: "list_all (references cs) rs \<Longrightarrow> JNull \<notin> set rs"
  by (auto simp: list_all_iff references_def no_clientIndex_def)

lemma filter_collection_array:
  assumes "get_prop s name = Some (JArr xs [])"
  shows "filter_collection name key cid s =
           (if JNull \<in> set xs then (TypeError, s)
            else (Normal, set_prop s name
                    (JArr (filter (\<lambda>x. \<not> strict_equals (get_prop x key) cid) xs) [])))"
  using assms by (simp add: filter_collection_def)

lemma references_filter:
  assumes "references cs r" "\<not> strict_equals (get_prop r ''clientId'') cid"
  shows "references (filter (\<lambda>x. \<not> strict_equals (get_prop x ''id'') cid) cs) r"
  using assms by (auto simp: references_def)

lemma deleteClient_keeps_integrity:
  assumes "referential_integrity st"
  shows "referential_integrity (snd (deleteClient cid st))"
proof -
  from assms obtain cs rs es where
    gc: "get_prop st ''clients'' = Some (JArr cs [])" and
    gp: "get_prop st ''progress'' = Some (JArr rs [])" and
    ge: "get_prop st ''events'' = Some (JArr es [])" and
    rr: "list_all (references cs) rs" and re: "list_all (references cs) es"
    unfolding referential_integrity_iff by blast
  show ?thesis
  proof (cases "JNull \<in> set cs")
    case True
    then have "deleteClient cid st = (TypeError, st)"
      by (simp add: deleteClient_def filter_collection_array[OF gc])
    with assms show ?thesis by simp
  next
    case False
    let ?cs = "filter (\<lambda>x. \<not> strict_equals (get_prop x ''id'') cid) cs"
    let ?rs = "filter (\<lambda>x. \<not> strict_equals (get_prop x ''clientId'') cid) rs"
    let ?es = "filter (\<lambda>x. \<not> strict_equals (get_prop x ''clientId'') cid) es"
    let ?s1 = "set_prop st ''clients'' (JArr ?cs [])"
    let ?s2 = "set_prop ?s1 ''progress'' (JArr ?rs [])"
    let ?s3 = "set_prop ?s2 ''events'' (JArr ?es [])"
    have f1: "filter_collection ''clients'' ''id'' cid st = (Normal, ?s1)"
      using False by (simp add: filter_collection_array[OF gc])
    have g1p: "get_prop ?s1 ''progress'' = Some (JArr rs [])"
      using gp by (simp add: get_prop_set_prop_other)
    have f2: "filter_collection ''progress'' ''clientId'' cid ?s1 = (Normal, ?s2)"
      using references_not_null[OF rr] by (simp add: filter_collection_array[OF g1p])
    have g2e: "get_prop ?s2 ''events'' = Some (JArr es [])"
      using ge by (simp add: get_prop_set_prop_other)
    have f3: "filter_collection ''events'' ''clientId'' cid ?s2 = (Normal, ?s3)"
      using references_not_null[OF re] by (simp add: filter_collection_array[OF g2e])
    have del: "deleteClient cid st = (Normal, ?s3)"
      by (simp add: deleteClient_def f1 f2 f3)
    have c3: "get_prop ?s3 ''clients'' = Some (JArr ?cs [])"
      using get_prop_set_prop_same[OF gc, of "''clients''" "JArr ?cs []"]
      by (simp add: get_prop_set_prop_other)
    have p3: "get_prop ?s3 ''progress'' = Some (JArr ?rs [])"
      using get_prop_set_prop_same[OF g1p, of "''progress''" "JArr ?rs []"]
      by (simp add: get_prop_set_prop_other)
    have e3: "get_prop ?s3 ''events'' = Some (JArr ?es [])"
      using get_prop_set_prop_same[OF g2e, of "''events''" "JArr ?es []"] by simp
    have "list_all (references ?cs) ?rs" "list_all (references ?cs) ?es"
      using rr re by (auto simp: list_all_iff intro: references_filter)
    with c3 p3 e3 have "referential_integrity ?s3"
      unfolding referential_integrity_iff by blast
    with del show ?thesis by simp
  qed
qed

lemma push_record_array:
  assumes "get_prop st name = Some (JArr xs [])"
  shows "push_record name r st = (Normal, set_prop st name (JArr (xs @ [r]) []))"
  using assms by (simp add: push_record_def)

lemma push_keeps_integrity:
  assumes ri: "referential_integrity st"
    and name: "name = ''progress'' \<or> name = ''events''"
    and cs: "collection st ''clients'' = Some cs" and r: "references cs r"
  shows "referential_integrity (snd (push_record name r st))"
proof -
  from ri cs obtain rs es where
    gc: "get_prop st ''clients'' = Some (JArr cs [])" and
    gp: "get_prop st ''progress'' = Some (JArr rs [])" and
    ge: "get_prop st ''events'' = Some (JArr es [])" and
    rr: "list_all (references cs) rs" and re: "list_all (references cs) es"
    unfolding referential_integrity_iff collection_Some by auto
  from name show ?thesis
  proof
    assume n: "name = ''progress''"
    let ?s = "set_prop st ''progress'' (JArr (rs @ [r]) [])"
    have "get_prop ?s ''clients'' = Some (JArr cs [])" "get_prop ?s ''events'' = Some (JArr es [])"
      using gc ge by (simp_all add: get_prop_set_prop_other)
    moreover have "get_prop ?s ''progress'' = Some (JArr (rs @ [r]) [])"
      using gp by (rule get_prop_set_prop_same)
    moreover have "list_all (references cs) (rs @ [r])" using rr r by simp
    ultimately have "referential_integrity ?s"
      unfolding referential_integrity_iff using re by blast
    then show ?thesis by (simp add: n push_record_array[OF gp])
  next
    assume n: "name = ''events''"
    let ?s = "set_prop st ''events'' (JArr (es @ [r]) [])"
    have "get_prop ?s ''clients'' = Some (JArr cs [])" "get_prop ?s ''progress'' = Some (JArr rs [])"
      using gc gp by (simp_all add: get_prop_set_prop_other)
    moreover have "get_prop ?s ''events'' = Some (JArr (es @ [r]) [])"
      using ge by (rule get_prop_set_prop_same)
    moreover have "list_all (references cs) (es @ [r])" using re r by simp
    ultimately have "referential_integrity ?s"
      unfolding referential_integrity_iff using rr by blast
    then show ?thesis by (simp add: n push_record_array[OF ge])
  qed
qed

lemma new_record_references:
  assumes "Some (JStr clientId) \<in> (\<lambda>client. get_prop client ''id'') ` set cs"
    and "f \<noteq> ''clientIndex''"
  shows "references cs (JObj [(''clientId'', JStr clientId), (''date'', JStr date), (f, JStr v)])"
  using assms by (auto simp: references_def no_clientIndex_def) 

lemma stripped_no_clientIndex: "list_all no_clientIndex (migrate_records ids rs)"
  by (auto simp: list_all_iff migrate_records_def strip_clientIndex_def no_clientIndex_def
      delete_notin_dom)


lemma migrateState_no_clientIndex:
  assumes "migrateState src k raw = (Normal, migrated, k')"
  shows "\<exists>progress events.
           collection migrated ''progress'' = Some progress \<and>
           collection migrated ''events'' = Some events \<and>
           list_all no_clientIndex progress \<and> list_all no_clientIndex events"
proof -
  from migrateState_Normal(2)[OF assms] obtain rs where
    p: "collection migrated ''progress'' = Some (migrate_records (indexToId_of src k raw) rs)"
    unfolding collection_Some by blast
  from migrateState_Normal(3)[OF assms] obtain es where
    e: "collection migrated ''events'' = Some (migrate_records (indexToId_of src k raw) es)"
    unfolding collection_Some by blast
  from p e show ?thesis by (simp add: stripped_no_clientIndex)
qed

text \<open>
  C4, as amended. After a migration that completes, no progress record and no calendar
  event carries a \<^verbatim>\<open>clientIndex\<close> field. That every record's \<^verbatim>\<open>clientId\<close> is the \<^verbatim>\<open>id\<close>
  of some client is preserved rather than established: if it holds before a client is
  deleted, or before a progress record or an event is added for the \<^verbatim>\<open>id\<close> of an
  existing client, it holds afterwards. The migration keeps a record that names no
  client at all, and the two forms do not check that the \<^verbatim>\<open>clientId\<close> they are given
  belongs to a client.
\<close>

theorem integrity_preserved:
  "(migrateState src k raw = (Normal, migrated, k') \<longrightarrow>
      (\<exists>progress events.
          collection migrated ''progress'' = Some progress \<and>
          collection migrated ''events'' = Some events \<and>
          list_all no_clientIndex progress \<and> list_all no_clientIndex events)) \<and>
   (referential_integrity st \<longrightarrow> referential_integrity (snd (deleteClient cid st))) \<and>
   (referential_integrity st \<and>
    (\<exists>clients. collection st ''clients'' = Some clients \<and>
               Some (JStr clientId) \<in> (\<lambda>client. get_prop client ''id'') ` set clients) \<longrightarrow>
      referential_integrity (snd (addProgressRecord clientId date weight st)) \<and>
      referential_integrity (snd (addEvent clientId date note st)))"
proof (intro conjI impI)
  assume "migrateState src k raw = (Normal, migrated, k')"
  then show "\<exists>progress events.
          collection migrated ''progress'' = Some progress \<and>
          collection migrated ''events'' = Some events \<and>
          list_all no_clientIndex progress \<and> list_all no_clientIndex events"
    by (rule migrateState_no_clientIndex)
next
  assume "referential_integrity st"
  then show "referential_integrity (snd (deleteClient cid st))"
    by (rule deleteClient_keeps_integrity)
next
  assume a: "referential_integrity st \<and>
    (\<exists>clients. collection st ''clients'' = Some clients \<and>
               Some (JStr clientId) \<in> (\<lambda>client. get_prop client ''id'') ` set clients)"
  then obtain cs where ri: "referential_integrity st" and cs: "collection st ''clients'' = Some cs"
    and mem: "Some (JStr clientId) \<in> (\<lambda>client. get_prop client ''id'') ` set cs" by blast
  have "referential_integrity (snd (push_record ''progress''
          (JObj [(''clientId'', JStr clientId), (''date'', JStr date), (''weight'', JStr weight)]) st))"
    by (rule push_keeps_integrity[OF ri _ cs]) (simp_all add: new_record_references[OF mem])
  then show "referential_integrity (snd (addProgressRecord clientId date weight st))"
    using ri by (simp add: addProgressRecord_def)
next
  assume a: "referential_integrity st \<and>
    (\<exists>clients. collection st ''clients'' = Some clients \<and>
               Some (JStr clientId) \<in> (\<lambda>client. get_prop client ''id'') ` set clients)"
  then obtain cs where ri: "referential_integrity st" and cs: "collection st ''clients'' = Some cs"
    and mem: "Some (JStr clientId) \<in> (\<lambda>client. get_prop client ''id'') ` set cs" by blast
  have "referential_integrity (snd (push_record ''events''
          (JObj [(''clientId'', JStr clientId), (''date'', JStr date), (''note'', JStr note)]) st))"
    by (rule push_keeps_integrity[OF ri _ cs]) (simp_all add: new_record_references[OF mem])
  then show "referential_integrity (snd (addEvent clientId date note st))"
    using ri by (simp add: addEvent_def)
qed

lemmas integrity_run =
  referential_integrity_def collection_def references_def no_clientIndex_def

lemma migrated_state_integrity: "referential_integrity migrated_state"
  by (simp add: migrated_state_def integrity_run)

theorem integrity_preserved_witness:
  "migrateState sample_src 0 legacy_state = (Normal, migrated_state, 2) \<and>
   referential_integrity migrated_state \<and>
   referential_integrity (snd (deleteClient (PStr ''uuid-1'') migrated_state)) \<and>
   referential_integrity (snd (addProgressRecord ''uuid-0'' ''2024-03-03'' ''71'' migrated_state)) \<and>
   referential_integrity (snd (addEvent ''uuid-0'' ''2024-03-03'' ''legs'' migrated_state))"
proof -
  have "\<exists>clients. collection migrated_state ''clients'' = Some clients \<and>
          Some (JStr ''uuid-0'') \<in> (\<lambda>client. get_prop client ''id'') ` set clients"
    by (simp add: migrated_state_def collection_def)
  with integrity_preserved [of sample_src 0 legacy_state migrated_state 2 migrated_state
      "PStr ''uuid-1''" "''uuid-0''" "''2024-03-03''" "''71''" "''legs''"]
    migrated_state_integrity sample_migration
  show ?thesis by blast
qed

theorem integrity_counterexample:
  "migrateState sample_src 0 orphan_state = (Normal, orphan_state, 0) \<and>
   \<not> referential_integrity orphan_state \<and>
   referential_integrity initial_state \<and>
   \<not> referential_integrity (snd (addProgressRecord ''ghost'' ''2024-01-01'' ''70'' initial_state))"
  by (simp add: orphan_state_def initial_state_def sample_run integrity_run addProgressRecord_def
      push_record_def)

subsection \<open>Backup and restore\<close>









text \<open>
  C1, as amended. For every input that \<^verbatim>\<open>JSON.parse\<close> rejects, the restore fails with
  the invalid-backup notice and the store is exactly as it was before the call. The
  text \<^verbatim>\<open>{}\<close> parses, is not a state document, and the restore that fails on it has
  already replaced the store by the empty object.
\<close>

theorem restore_rejects_unparseable:
  assumes "JSON_parse text = None"
  shows "replaceState JSON_parse src ui k text st = (InvalidBackupFile, st, k)"
  using assms by (simp add: replaceState_def)

theorem restore_rejects_unparseable_witness:
  "sample_parse ''not json'' = None \<and>
   replaceState sample_parse sample_src sample_ui 0 ''not json'' migrated_state =
     (InvalidBackupFile, migrated_state, 0)"
  using restore_rejects_unparseable [of sample_parse "''not json''" sample_src sample_ui 0 migrated_state]
  by (simp add: sample_parse_def)

theorem restore_failure_counterexample:
  "sample_parse ''{}'' = Some (JObj []) \<and>
   \<not> store_invariants (JObj []) \<and>
   replaceState sample_parse sample_src sample_ui 0 ''{}'' migrated_state =
     (InvalidBackupFile, JObj [], 0) \<and>
   JObj [] \<noteq> migrated_state"
  by (simp add: sample_parse_def replaceState_def migrateState_def migrate_clients_def
      store_invariants_def integrity_run migrated_state_def)

end
